theory Spec2Isabelle
  imports Main "HOL-Library.Multiset"
begin

section \<open>Data model\<close>

text \<open>
  Modelled from the spec: the module \<^verbatim>\<open>./github\<close> that declares
  \<^verbatim>\<open>AnnotationLevel\<close> and \<^verbatim>\<open>Annotation\<close> is not among the sources; the
  levels and the fields are those of the spec's data model.
\<close>

datatype AnnotationLevel = notice | warning | failure

record Annotation =
  path :: string
  start_line :: nat
  end_line :: nat
  start_column :: "nat option"
  end_column :: "nat option"
  annotation_level :: AnnotationLevel
  message :: string
  title :: "string option"

text \<open>
  Modelled from the spec: the result of the search collaborator (\<^verbatim>\<open>./search\<close> is not
  among the sources).
\<close>

record SearchResult =
  filesToUpload :: "string list"
  rootDirectory :: string

text \<open>
  The return type of \<^verbatim>\<open>getConclusion\<close>: \<^verbatim>\<open>'success' | 'failure' | 'neutral'\<close>. The two
  functions after it give the text of a conclusion and of a level in a template string.
\<close>

datatype Conclusion = success | failure | neutral

fun conclusion_string :: "Conclusion \<Rightarrow> string" where
  "conclusion_string success = ''success''"
| "conclusion_string Conclusion.failure = ''failure''"
| "conclusion_string neutral = ''neutral''"

fun level_string :: "AnnotationLevel \<Rightarrow> string" where
  "level_string notice = ''notice''"
| "level_string warning = ''warning''"
| "level_string AnnotationLevel.failure = ''failure''"

text \<open>
  Modelled from the spec: the names of the configuration inputs (\<^verbatim>\<open>./constants\<close> is
  not among the sources).
\<close>

datatype Inputs = Path | Mode | Name | Title | Token

text \<open>
  A thrown JavaScript error. \<^verbatim>\<open>core.getInput\<close> throws when a required input is not
  supplied; every other error comes from a library or a collaborator and carries its
  message.
\<close>

datatype error = InputRequired Inputs | Error string

subsection \<open>Numbers in template strings\<close>

definition digit_char :: "nat \<Rightarrow> char" where
  "digit_char d = char_of (48 + d)"

function show_nat :: "nat \<Rightarrow> string" where
  "show_nat n = (if n < 10 then [digit_char n] else show_nat (n div 10) @ [digit_char (n mod 10)])"
  by pat_completeness auto
termination
  by (relation "measure (\<lambda>n. n)") auto

declare show_nat.simps [simp del]

subsection \<open>Whitespace\<close>

text \<open>
  Strings are UTF-8 encoded. \<^verbatim>\<open>String.prototype.trim\<close> removes the white space and
  line terminator code points of ECMAScript from both ends: tab, line feed, vertical tab,
  form feed, carriage return, space, U+00A0, U+1680, U+2000 to U+200A, U+2028, U+2029,
  U+202F, U+205F, U+3000 and U+FEFF, listed here by their encodings.
\<close>

definition whitespace :: "string list" where
  "whitespace =
     [[CHR 0x09], [CHR 0x0A], [CHR 0x0B], [CHR 0x0C], [CHR 0x0D], [CHR 0x20],
      [CHR 0xC2, CHR 0xA0],
      [CHR 0xE1, CHR 0x9A, CHR 0x80],
      [CHR 0xE2, CHR 0x80, CHR 0x80], [CHR 0xE2, CHR 0x80, CHR 0x81],
      [CHR 0xE2, CHR 0x80, CHR 0x82], [CHR 0xE2, CHR 0x80, CHR 0x83],
      [CHR 0xE2, CHR 0x80, CHR 0x84], [CHR 0xE2, CHR 0x80, CHR 0x85],
      [CHR 0xE2, CHR 0x80, CHR 0x86], [CHR 0xE2, CHR 0x80, CHR 0x87],
      [CHR 0xE2, CHR 0x80, CHR 0x88], [CHR 0xE2, CHR 0x80, CHR 0x89],
      [CHR 0xE2, CHR 0x80, CHR 0x8A],
      [CHR 0xE2, CHR 0x80, CHR 0xA8], [CHR 0xE2, CHR 0x80, CHR 0xA9],
      [CHR 0xE2, CHR 0x80, CHR 0xAF],
      [CHR 0xE2, CHR 0x81, CHR 0x9F],
      [CHR 0xE3, CHR 0x80, CHR 0x80],
      [CHR 0xEF, CHR 0xBB, CHR 0xBF]]"

definition starts_with :: "string \<Rightarrow> string \<Rightarrow> bool" where
  "starts_with s w = (w \<noteq> [] \<and> take (length w) s = w)"

text \<open>Removing from the front of a string every leading occurrence of the given words.\<close>

function strip :: "string list \<Rightarrow> string \<Rightarrow> string" where
  "strip ws s =
     (case find (starts_with s) ws of
        None \<Rightarrow> s
      | Some w \<Rightarrow> strip ws (drop (length w) s))"
  by pat_completeness auto
termination
proof (relation "measure (\<lambda>(ws, s). length s)")
  show "wf (measure (\<lambda>(ws, s). length s))"
    by simp
next
  fix ws :: "string list" and s w :: string
  assume "find (starts_with s) ws = Some w"
  then have "starts_with s w"
    by (auto simp add: find_Some_iff)
  then have "w \<noteq> []" and "take (length w) s = w"
    by (simp_all add: starts_with_def)
  then have "s \<noteq> []"
    by auto
  with \<open>w \<noteq> []\<close> show "((ws, drop (length w) s), (ws, s)) \<in> measure (\<lambda>(ws, s). length s)"
    by simp
qed

declare strip.simps [simp del]

definition trim :: "string \<Rightarrow> string" where
  "trim s = rev (strip (map rev whitespace) (rev (strip whitespace s)))"

section \<open>The Batcher\<close>

definition MAX_ANNOTATIONS_PER_REQUEST :: nat where
  "MAX_ANNOTATIONS_PER_REQUEST = 50"

text \<open>\<^verbatim>\<open>Array.prototype.slice(from, to)\<close> for indices that are not negative.\<close>

definition slice :: "nat \<Rightarrow> nat \<Rightarrow> 'a list \<Rightarrow> 'a list" where
  "slice from to xs = take (to - from) (drop from xs)"

text \<open>
  Ramda's \<^verbatim>\<open>splitEvery(n, list)\<close>: it throws unless \<open>n\<close> is positive, then pushes
  \<^verbatim>\<open>slice(idx, idx += n, list)\<close> while \<^verbatim>\<open>idx < list.length\<close>. The loop is only
  entered with a positive \<open>n\<close>; the guard \<open>0 < n\<close> in the loop restates that.
\<close>

function splitEvery_loop :: "nat \<Rightarrow> 'a list \<Rightarrow> nat \<Rightarrow> 'a list list \<Rightarrow> 'a list list" where
  "splitEvery_loop n xs idx result =
     (if 0 < n \<and> idx < length xs
      then splitEvery_loop n xs (idx + n) (result @ [slice idx (idx + n) xs])
      else result)"
  by pat_completeness auto
termination
  by (relation "measure (\<lambda>(n, xs, idx, result). length xs - idx)") auto

declare splitEvery_loop.simps [simp del]

definition splitEvery :: "nat \<Rightarrow> 'a list \<Rightarrow> error + 'a list list" where
  "splitEvery n xs =
     (if n \<le> 0 then Inl (Error ''First argument to splitEvery must be a positive integer'')
      else Inr (splitEvery_loop n xs 0 []))"

text \<open>
  Lines 43-46 of \<^verbatim>\<open>run\<close>, with the limit as a parameter; \<^verbatim>\<open>run\<close> passes
  \<open>MAX_ANNOTATIONS_PER_REQUEST\<close>.
\<close>

definition groupedAnnotations :: "nat \<Rightarrow> 'a list \<Rightarrow> error + 'a list list" where
  "groupedAnnotations limit annotations =
     (if length annotations > limit then splitEvery limit annotations
      else Inr [annotations])"

section \<open>The Verdict Calculator\<close>

text \<open>
  Ramda's \<^verbatim>\<open>groupBy\<close>: an object that maps each key to the elements with that key,
  in their order of appearance; a key that no element has is absent.
\<close>

definition groupBy_step :: "('a \<Rightarrow> 'k) \<Rightarrow> ('k \<rightharpoonup> 'a list) \<Rightarrow> 'a \<Rightarrow> ('k \<rightharpoonup> 'a list)" where
  "groupBy_step f acc x =
     acc(f x \<mapsto> (case acc (f x) of None \<Rightarrow> [x] | Some ys \<Rightarrow> ys @ [x]))"

definition groupBy :: "('a \<Rightarrow> 'k) \<Rightarrow> 'a list \<Rightarrow> ('k \<rightharpoonup> 'a list)" where
  "groupBy f xs = foldl (groupBy_step f) Map.empty xs"

text \<open>
  The JavaScript test \<^verbatim>\<open>m[k] && m[k].length\<close>: the key is present and its list is
  not empty.
\<close>

definition present_nonempty :: "('k \<rightharpoonup> 'a list) \<Rightarrow> 'k \<Rightarrow> bool" where
  "present_nonempty m k = (case m k of None \<Rightarrow> False | Some ys \<Rightarrow> length ys \<noteq> 0)"

definition getConclusion :: "Annotation list \<Rightarrow> Conclusion" where
  "getConclusion annotations =
     (if length annotations = 0 then success
      else
        let annotationsByLevel = groupBy annotation_level annotations in
        if present_nonempty annotationsByLevel AnnotationLevel.failure then Conclusion.failure
        else if present_nonempty annotationsByLevel AnnotationLevel.warning then neutral
        else success)"

section \<open>The world the action runs in\<close>

text \<open>
  Everything \<^verbatim>\<open>run\<close> and \<^verbatim>\<open>createCheck\<close> do besides computing is an event of a
  trace, in the order of the calls: the log lines of \<^verbatim>\<open>@actions/core\<close>, the workflow
  commands, the calls of the search and parse collaborators and the requests sent to the
  checks service. What a collaborator does inside a call is not part of the trace.
\<close>

record CommandProperties =
  prop_file :: string
  prop_line :: nat
  prop_col :: "nat option"

record Repo =
  owner :: string
  repo :: string

text \<open>
  The workflow context: the triggering commit, the head commit of the pull request when
  the payload has one, and the repository that \<^verbatim>\<open>GITHUB_REPOSITORY\<close> or else the payload
  names, if any.
\<close>

record Context =
  sha :: string
  pull_request_head_sha :: "string option"
  repository :: "Repo option"

text \<open>The getter \<^verbatim>\<open>context.repo\<close>: it throws when no repository is known.\<close>

definition context_repo :: "Context \<Rightarrow> error + Repo" where
  "context_repo c =
     (case repository c of
        None \<Rightarrow> Inl (Error (''context.repo requires a GITHUB_REPOSITORY environment variable like ''
                  @ [CHR 0x27] @ ''owner/repo'' @ [CHR 0x27]))
      | Some r \<Rightarrow> Inr r)"

record ListRequest =
  list_owner :: string
  list_repo :: string
  ref :: string

datatype Status = queued | in_progress | completed

record Output =
  output_title :: string
  output_summary :: string
  output_annotations :: "Annotation list"

record CreateRequest =
  create_owner :: string
  create_repo :: string
  head_sha :: string
  create_conclusion :: Conclusion
  create_name :: string
  create_status :: Status
  create_output :: Output

record UpdateRequest =
  update_owner :: string
  update_repo :: string
  update_conclusion :: Conclusion
  check_run_id :: nat
  update_status :: Status
  update_output :: Output

text \<open>An element of \<^verbatim>\<open>res.data.check_runs\<close>: the fields the action reads.\<close>

record CheckRun =
  check_id :: nat
  check_name :: string

datatype event =
    core_error string
  | core_warning string
  | core_info string
  | core_debug string
  | issueCommand string CommandProperties string
  | call_findResults string
  | call_annotationsForPath string
  | checks_listForRef ListRequest
  | checks_create CreateRequest
  | checks_update UpdateRequest
  | core_setFailed error

text \<open>
  The checks service behind the client: each request reads and changes the state \<open>'r\<close>
  of the service and either answers or raises.
\<close>

record 'r Octokit =
  listForRef :: "ListRequest \<Rightarrow> 'r \<Rightarrow> (error + CheckRun list) \<times> 'r"
  create :: "CreateRequest \<Rightarrow> 'r \<Rightarrow> (error + unit) \<times> 'r"
  update :: "UpdateRequest \<Rightarrow> 'r \<Rightarrow> (error + unit) \<times> 'r"

text \<open>
  The collaborators and the ambient values: the action's inputs as supplied (empty when
  not supplied), the search and the parser of \<^verbatim>\<open>./search\<close> and \<^verbatim>\<open>./annotations\<close>
  (not among the sources, so parameters here), the workflow context, and the client of
  the checks service that a token gives access to.
\<close>

record 'r Env =
  input :: "Inputs \<Rightarrow> string"
  findResults :: "string \<Rightarrow> error + SearchResult"
  annotationsForPath :: "string \<Rightarrow> error + Annotation list"
  github_context :: Context
  client :: "string \<Rightarrow> 'r Octokit"

text \<open>\<^verbatim>\<open>getOctokit(token)\<close>: it throws when the token is empty.\<close>

definition getOctokit :: "'r Env \<Rightarrow> string \<Rightarrow> error + 'r Octokit" where
  "getOctokit env token =
     (if token = [] then Inl (Error ''Parameter token or opts.auth is required'')
      else Inr (client env token))"

text \<open>
  The state of a run: the trace so far, the state of the checks service, and the error
  the process was marked failed with (\<^verbatim>\<open>core.setFailed\<close>), if any.
\<close>

record 'r State =
  trace :: "event list"
  remote :: 'r
  failed :: "error option"

definition emit :: "event \<Rightarrow> 'r State \<Rightarrow> 'r State" where
  "emit e s = s\<lparr>trace := trace s @ [e]\<rparr>"

definition request :: "('r \<Rightarrow> (error + 'a) \<times> 'r) \<Rightarrow> 'r State \<Rightarrow> (error + 'a) \<times> 'r State" where
  "request op s = (case op (remote s) of (res, r') \<Rightarrow> (res, s\<lparr>remote := r'\<rparr>))"

text \<open>
  \<^verbatim>\<open>core.setFailed(error)\<close>: the library marks the process failed with the error and
  prints it.
\<close>

definition setFailed :: "error \<Rightarrow> 'r State \<Rightarrow> 'r State" where
  "setFailed e s = emit (core_setFailed e) (s\<lparr>failed := Some e\<rparr>)"

text \<open>
  \<^verbatim>\<open>core.getInput(name, {required})\<close>: it throws when a required input is empty, and
  returns the value of the input without the white space around it.
\<close>

definition getInput :: "'r Env \<Rightarrow> Inputs \<Rightarrow> bool \<Rightarrow> error + string" where
  "getInput env name required =
     (let val = input env name
      in if required \<and> val = [] then Inl (InputRequired name) else Inr (trim val))"

section \<open>The Check Reporter\<close>

definition createCheck ::
  "'r Env \<Rightarrow> string \<Rightarrow> string \<Rightarrow> Annotation list \<Rightarrow> nat \<Rightarrow> Conclusion \<Rightarrow> 'r State
   \<Rightarrow> (error + unit) \<times> 'r State" where
  "createCheck env name title' annotations numErrors conclusion s0 =
     (let s1 = emit (core_info (''Uploading '' @ show_nat (length annotations) @ '' / ''
                  @ show_nat numErrors @ '' annotations to GitHub as '' @ name
                  @ '' with conclusion '' @ conclusion_string conclusion)) s0
      in case getInput env Token False of
           Inl e \<Rightarrow> (Inl e, s1)
         | Inr token \<Rightarrow>
      (case getOctokit env token of
           Inl e \<Rightarrow> (Inl e, s1)
         | Inr octokit \<Rightarrow>
      (let sha' = (case pull_request_head_sha (github_context env) of
                     Some h \<Rightarrow> h
                   | None \<Rightarrow> sha (github_context env))
       in case context_repo (github_context env) of
            Inl e \<Rightarrow> (Inl e, s1)
          | Inr repo1 \<Rightarrow>
       (let req = \<lparr>list_owner = owner repo1, list_repo = repo repo1, ref = sha'\<rparr>
        in case request (listForRef octokit req) (emit (checks_listForRef req) s1) of
             (Inl e, s2) \<Rightarrow> (Inl e, s2)
           | (Inr check_runs, s2) \<Rightarrow>
              (case find (\<lambda>check. check_name check = name) check_runs of
                 None \<Rightarrow>
                  (case context_repo (github_context env) of
                     Inl e \<Rightarrow> (Inl e, s2)
                   | Inr repo2 \<Rightarrow>
                      (let createRequest =
                             \<lparr>create_owner = owner repo2,
                              create_repo = repo repo2,
                              head_sha = sha',
                              create_conclusion = conclusion,
                              create_name = name,
                              create_status = completed,
                              create_output =
                                \<lparr>output_title = title',
                                 output_summary = show_nat numErrors @ '' violation(s) found'',
                                 output_annotations = annotations\<rparr>\<rparr>
                       in request (create octokit createRequest)
                            (emit (checks_create createRequest) s2)))
               | Some existingCheckRun \<Rightarrow>
                  (case context_repo (github_context env) of
                     Inl e \<Rightarrow> (Inl e, s2)
                   | Inr repo2 \<Rightarrow>
                      (let update_req =
                             \<lparr>update_owner = owner repo2,
                              update_repo = repo repo2,
                              update_conclusion = conclusion,
                              check_run_id = check_id existingCheckRun,
                              update_status = completed,
                              update_output =
                                \<lparr>output_title = title',
                                 output_summary = show_nat numErrors @ '' violation(s) found'',
                                 output_annotations = annotations\<rparr>\<rparr>
                       in request (update octokit update_req)
                            (emit (checks_update update_req) s2))))))))"

text \<open>The loop of lines 53-61: one awaited \<^verbatim>\<open>createCheck\<close> per batch; a raise ends it.\<close>

fun createCheck_loop ::
  "'r Env \<Rightarrow> string \<Rightarrow> string \<Rightarrow> Annotation list list \<Rightarrow> nat \<Rightarrow> Conclusion \<Rightarrow> 'r State
   \<Rightarrow> (error + unit) \<times> 'r State" where
  "createCheck_loop env name title' [] numErrors conclusion s = (Inr (), s)"
| "createCheck_loop env name title' (annotationSet # rest) numErrors conclusion s =
     (case createCheck env name title' annotationSet numErrors conclusion s of
        (Inl e, s') \<Rightarrow> (Inl e, s')
      | (Inr u, s') \<Rightarrow> createCheck_loop env name title' rest numErrors conclusion s')"

section \<open>The Inline Emitter\<close>

definition annotation_log :: "Annotation \<Rightarrow> event" where
  "annotation_log annotation =
     core_info (''[Checkstyle '' @ level_string (annotation_level annotation) @ ''] ''
       @ path annotation @ '':'' @ show_nat (start_line annotation) @ '' ''
       @ message annotation)"

definition annotation_command :: "Annotation \<Rightarrow> event" where
  "annotation_command annotation =
     (let commandName = ''error''
      in issueCommand commandName
           \<lparr>prop_file = path annotation, prop_line = start_line annotation,
            prop_col = start_column annotation\<rparr>
           (message annotation))"

text \<open>The loop of lines 63-85.\<close>

fun inline_loop :: "Annotation list \<Rightarrow> 'r State \<Rightarrow> 'r State" where
  "inline_loop [] s = s"
| "inline_loop (annotation # rest) s =
     (let s1 = emit (annotation_log annotation) s
      in if annotation_level annotation \<noteq> AnnotationLevel.failure then inline_loop rest s1
         else inline_loop rest (emit (annotation_command annotation) s1))"

section \<open>The Pipeline Controller\<close>

text \<open>
  Ramda's \<^verbatim>\<open>chain(annotationsForPath, files)\<close>: the parser is called on each file in
  order and the results are concatenated; a raise of the parser ends it.
\<close>

fun chain_annotationsForPath ::
  "'r Env \<Rightarrow> string list \<Rightarrow> 'r State \<Rightarrow> (error + Annotation list) \<times> 'r State" where
  "chain_annotationsForPath env [] s = (Inr [], s)"
| "chain_annotationsForPath env (f # fs) s =
     (let s1 = emit (call_annotationsForPath f) s
      in case annotationsForPath env f of
           Inl e \<Rightarrow> (Inl e, s1)
         | Inr found \<Rightarrow>
            (case chain_annotationsForPath env fs s1 of
               (Inl e, s2) \<Rightarrow> (Inl e, s2)
             | (Inr others, s2) \<Rightarrow> (Inr (found @ others), s2)))"

text \<open>The body of the \<^verbatim>\<open>try\<close> block of \<^verbatim>\<open>run\<close>.\<close>

definition run_body :: "'r Env \<Rightarrow> 'r State \<Rightarrow> (error + unit) \<times> 'r State" where
  "run_body env s0 =
     (case getInput env Path True of
        Inl e \<Rightarrow> (Inl e, s0)
      | Inr path' \<Rightarrow>
     (case getInput env Mode False of
        Inl e \<Rightarrow> (Inl e, s0)
      | Inr mode \<Rightarrow>
     (case getInput env Name False of
        Inl e \<Rightarrow> (Inl e, s0)
      | Inr name \<Rightarrow>
     (case getInput env Title False of
        Inl e \<Rightarrow> (Inl e, s0)
      | Inr title' \<Rightarrow>
     (if mode \<noteq> ''inline'' \<and> mode \<noteq> ''separate'' then
        (Inr (), emit (core_error (''Invalid mode provided ('' @ mode
                   @ ''). Use '' @ [CHR 0x22] @ ''inline'' @ [CHR 0x22] @ '' or ''
                   @ [CHR 0x22] @ ''separate'' @ [CHR 0x22] @ ''.'')) s0)
      else
       (let s1 = emit (call_findResults path') s0
        in case findResults env path' of
             Inl e \<Rightarrow> (Inl e, s1)
           | Inr searchResult \<Rightarrow>
              (if length (filesToUpload searchResult) = 0 then
                 (Inr (), emit (core_warning (''No files were found for the provided path: ''
                            @ path' @ ''. No results will be uploaded.'')) s1)
               else
                (let s2 = emit (core_info (''With the provided path, there will be ''
                            @ show_nat (length (filesToUpload searchResult))
                            @ '' results uploaded'')) s1;
                     s3 = emit (core_debug (''Root artifact directory is ''
                            @ rootDirectory searchResult)) s2
                 in case chain_annotationsForPath env (filesToUpload searchResult) s3 of
                      (Inl e, s4) \<Rightarrow> (Inl e, s4)
                    | (Inr annotations, s4) \<Rightarrow>
                       (let s5 = emit (core_debug (''Grouping '' @ show_nat (length annotations)
                                   @ '' annotations into chunks of ''
                                   @ show_nat MAX_ANNOTATIONS_PER_REQUEST)) s4
                        in case groupedAnnotations MAX_ANNOTATIONS_PER_REQUEST annotations of
                             Inl e \<Rightarrow> (Inl e, s5)
                           | Inr grouped \<Rightarrow>
                              (let s6 = emit (core_debug (''Created ''
                                          @ show_nat (length grouped) @ '' buckets'')) s5
                               in if mode = ''separate'' then
                                    (let conclusion = getConclusion annotations
                                     in createCheck_loop env name title' grouped
                                          (length annotations) conclusion s6)
                                  else if mode = ''inline'' then
                                    (Inr (), inline_loop annotations s6)
                                  else (Inr (), s6)))))))))))"

text \<open>
  \<^verbatim>\<open>run\<close>: the process starts with an empty trace and is not marked failed; an error
  raised in the body is caught and handed to \<^verbatim>\<open>core.setFailed\<close>.
\<close>

definition run :: "'r Env \<Rightarrow> 'r \<Rightarrow> 'r State" where
  "run env r =
     (case run_body env \<lparr>trace = [], remote = r, failed = None\<rparr> of
        (Inl e, s) \<Rightarrow> setFailed e s
      | (Inr u, s) \<Rightarrow> s)"

section \<open>Reading a trace\<close>

fun is_request :: "event \<Rightarrow> bool" where
  "is_request (checks_listForRef q) = True"
| "is_request (checks_create q) = True"
| "is_request (checks_update q) = True"
| "is_request e = False"

text \<open>What a create or update request writes: its status, conclusion and output.\<close>

fun written_report :: "event \<Rightarrow> (Status \<times> Conclusion \<times> Output) option" where
  "written_report (checks_create q) = Some (create_status q, create_conclusion q, create_output q)"
| "written_report (checks_update q) = Some (update_status q, update_conclusion q, update_output q)"
| "written_report e = None"

definition written_reports :: "event list \<Rightarrow> (Status \<times> Conclusion \<times> Output) list" where
  "written_reports tr = List.map_filter written_report tr"

text \<open>The commit a report goes to: the head of the pull request when there is one.\<close>

definition resolved_commit :: "'r Env \<Rightarrow> string" where
  "resolved_commit env =
     (case pull_request_head_sha (github_context env) of
        Some h \<Rightarrow> h
      | None \<Rightarrow> sha (github_context env))"

definition list_request :: "'r Env \<Rightarrow> Repo \<Rightarrow> ListRequest" where
  "list_request env repo1 =
     \<lparr>list_owner = owner repo1, list_repo = repo repo1, ref = resolved_commit env\<rparr>"

text \<open>
  The state in which line 50 of \<^verbatim>\<open>run\<close> is reached when the search found files and
  every file was parsed: nothing was sent to the checks service yet.
\<close>

definition dispatch_state ::
  "'r Env \<Rightarrow> SearchResult \<Rightarrow> Annotation list \<Rightarrow> Annotation list list \<Rightarrow> 'r \<Rightarrow> 'r State" where
  "dispatch_state env searchResult annotations grouped r =
     \<lparr>trace =
        [call_findResults (trim (input env Path)),
         core_info (''With the provided path, there will be ''
           @ show_nat (length (filesToUpload searchResult)) @ '' results uploaded''),
         core_debug (''Root artifact directory is '' @ rootDirectory searchResult)]
        @ map call_annotationsForPath (filesToUpload searchResult)
        @ [core_debug (''Grouping '' @ show_nat (length annotations)
             @ '' annotations into chunks of '' @ show_nat MAX_ANNOTATIONS_PER_REQUEST),
           core_debug (''Created '' @ show_nat (length grouped) @ '' buckets'')],
      remote = r, failed = None\<rparr>"

text \<open>
  Names for the lemmas below: the output of a report, the write request that
  \<^verbatim>\<open>createCheck\<close> sends for a given listing, and the line it logs first.
\<close>

definition report_output :: "string \<Rightarrow> nat \<Rightarrow> Annotation list \<Rightarrow> Output" where
  "report_output title' numErrors annotations =
     \<lparr>output_title = title',
      output_summary = show_nat numErrors @ '' violation(s) found'',
      output_annotations = annotations\<rparr>"

definition write_event ::
  "'r Env \<Rightarrow> Repo \<Rightarrow> string \<Rightarrow> string \<Rightarrow> Annotation list \<Rightarrow> nat \<Rightarrow> Conclusion
   \<Rightarrow> CheckRun list \<Rightarrow> event" where
  "write_event env repo1 name title' annotations numErrors conclusion check_runs =
     (case find (\<lambda>check. check_name check = name) check_runs of
        None \<Rightarrow>
          checks_create
            \<lparr>create_owner = owner repo1,
             create_repo = repo repo1,
             head_sha = resolved_commit env,
             create_conclusion = conclusion,
             create_name = name,
             create_status = completed,
             create_output = report_output title' numErrors annotations\<rparr>
      | Some existingCheckRun \<Rightarrow>
          checks_update
            \<lparr>update_owner = owner repo1,
             update_repo = repo repo1,
             update_conclusion = conclusion,
             check_run_id = check_id existingCheckRun,
             update_status = completed,
             update_output = report_output title' numErrors annotations\<rparr>)"

definition upload_line :: "string \<Rightarrow> Annotation list \<Rightarrow> nat \<Rightarrow> Conclusion \<Rightarrow> event" where
  "upload_line name annotations numErrors conclusion =
     core_info (''Uploading '' @ show_nat (length annotations) @ '' / ''
       @ show_nat numErrors @ '' annotations to GitHub as '' @ name
       @ '' with conclusion '' @ conclusion_string conclusion)"

section \<open>An example environment\<close>

text \<open>
  A small checks service for concrete runs: it stores the check runs with their commit,
  lists those of a commit, gives a created run the next free id, and accepts updates.
  The second client is the same service rejecting every update.
\<close>

type_synonym Checks = "(string \<times> CheckRun) list"

definition store_listForRef :: "ListRequest \<Rightarrow> Checks \<Rightarrow> (error + CheckRun list) \<times> Checks" where
  "store_listForRef q r = (Inr (map snd (filter (\<lambda>p. fst p = ref q) r)), r)"

definition store_create :: "CreateRequest \<Rightarrow> Checks \<Rightarrow> (error + unit) \<times> Checks" where
  "store_create q r =
     (Inr (), r @ [(head_sha q, \<lparr>check_id = length r, check_name = create_name q\<rparr>)])"

definition store_update :: "UpdateRequest \<Rightarrow> Checks \<Rightarrow> (error + unit) \<times> Checks" where
  "store_update q r = (Inr (), r)"

definition rejecting_update :: "UpdateRequest \<Rightarrow> Checks \<Rightarrow> (error + unit) \<times> Checks" where
  "rejecting_update q r = (Inl (Error ''Resource not accessible by integration''), r)"

definition store_octokit :: "Checks Octokit" where
  "store_octokit =
     \<lparr>listForRef = store_listForRef, create = store_create, update = store_update\<rparr>"

definition rejecting_octokit :: "Checks Octokit" where
  "rejecting_octokit =
     \<lparr>listForRef = store_listForRef, create = store_create, update = rejecting_update\<rparr>"

definition unused_import :: Annotation where
  "unused_import =
     \<lparr>path = ''a.java'', start_line = 10, end_line = 10, start_column = Some 1,
      end_column = None, annotation_level = AnnotationLevel.failure,
      message = ''unused import'', title = None\<rparr>"

definition magic_number :: Annotation where
  "magic_number =
     \<lparr>path = ''b.java'', start_line = 4, end_line = 4, start_column = None,
      end_column = None, annotation_level = warning,
      message = ''magic number'', title = None\<rparr>"

definition example_inputs :: "string \<Rightarrow> string \<Rightarrow> Inputs \<Rightarrow> string" where
  "example_inputs path' mode k =
     (case k of Path \<Rightarrow> path' | Mode \<Rightarrow> mode | Name \<Rightarrow> ''Lint''
      | Title \<Rightarrow> ''Checkstyle'' | Token \<Rightarrow> ''secret'')"

definition example_env ::
  "string \<Rightarrow> string \<Rightarrow> string list \<Rightarrow> (string \<Rightarrow> Annotation list) \<Rightarrow> Checks Octokit \<Rightarrow> Checks Env"
  where
  "example_env path' mode files parsed octokit =
     \<lparr>input = example_inputs path' mode,
      findResults = (\<lambda>p. Inr \<lparr>filesToUpload = files, rootDirectory = ''/work''\<rparr>),
      annotationsForPath = (\<lambda>f. Inr (parsed f)),
      github_context =
        \<lparr>sha = ''abc'', pull_request_head_sha = None,
         repository = Some \<lparr>owner = ''wborn'', repo = ''demo''\<rparr>\<rparr>,
      client = (\<lambda>token. octokit)\<rparr>"

definition parse_two :: "string \<Rightarrow> Annotation list" where
  "parse_two f = (if f = ''a.xml'' then [unused_import, magic_number] else [])"

definition parse_many :: "string \<Rightarrow> Annotation list" where
  "parse_many f = replicate 51 magic_number"


definition parse_three :: "string \<Rightarrow> Annotation list" where
  "parse_three f = replicate 50 magic_number @ replicate 50 unused_import @ [magic_number]"

text \<open>The example environment of separate mode with no token supplied.\<close>

definition no_token_env :: "Checks Env" where
  "no_token_env =
     (example_env ''reports'' ''separate'' [''a.xml''] parse_two store_octokit)
       \<lparr>input := (example_inputs ''reports'' ''separate'')(Token := [])\<rparr>"

definition lint_twice :: Checks where
  "lint_twice =
     [(''abc'', \<lparr>check_id = 3, check_name = ''Build''\<rparr>),
      (''abc'', \<lparr>check_id = 7, check_name = ''Lint''\<rparr>),
      (''abc'', \<lparr>check_id = 9, check_name = ''Lint''\<rparr>)]"

definition start_state :: "Checks \<Rightarrow> Checks State" where
  "start_state r = \<lparr>trace = [], remote = r, failed = None\<rparr>"

text \<open>The example environment of separate mode with no repository known.\<close>

definition no_repository_env :: "Checks Env" where
  "no_repository_env =
     (example_env ''reports'' ''separate'' [''a.xml''] parse_two store_octokit)
       \<lparr>github_context :=
          \<lparr>sha = ''abc'', pull_request_head_sha = None, repository = None\<rparr>\<rparr>"

section \<open>Facts about the Batcher\<close>

lemma splitEvery_loop_concat:
  "concat (splitEvery_loop n xs idx result) = concat result @ (if 0 < n then drop idx xs else [])"
proof (induction n xs idx result rule: splitEvery_loop.induct)
  case (1 n xs idx result)
  show ?case
  proof (cases "0 < n \<and> idx < length xs")
    case True
    have "take n (drop idx xs) @ drop (idx + n) xs = drop idx xs"
      by (metis add.commute append_take_drop_id drop_drop)
    with True 1 show ?thesis
      by (subst splitEvery_loop.simps) (simp add: slice_def)
  next
    case False
    then show ?thesis
      by (subst splitEvery_loop.simps) auto
  qed
qed

lemma splitEvery_loop_lengths:
  "\<forall>b \<in> set result. length b = n \<Longrightarrow>
   \<forall>b \<in> set (butlast (splitEvery_loop n xs idx result)). length b = n"
proof (induction n xs idx result rule: splitEvery_loop.induct)
  case (1 n xs idx result)
  show ?case
  proof (cases "0 < n \<and> idx < length xs")
    case False
    with 1(2) show ?thesis
      by (subst splitEvery_loop.simps) (auto dest: in_set_butlastD)
  next
    case True
    show ?thesis
    proof (cases "idx + n \<le> length xs")
      case True
      then have "length (slice idx (idx + n) xs) = n"
        by (simp add: slice_def)
      with 1(2) have "\<forall>b \<in> set (result @ [slice idx (idx + n) xs]). length b = n"
        by auto
      from 1(1)[OF \<open>0 < n \<and> idx < length xs\<close> this] \<open>0 < n \<and> idx < length xs\<close> show ?thesis
        by (subst splitEvery_loop.simps) simp
    next
      case False
      then have stop: "splitEvery_loop n xs (idx + n) (result @ [slice idx (idx + n) xs])
                 = result @ [slice idx (idx + n) xs]"
        by (subst splitEvery_loop.simps) simp
      from \<open>0 < n \<and> idx < length xs\<close> 1(2) show ?thesis
        by (subst splitEvery_loop.simps) (simp add: stop)
    qed
  qed
qed

lemma splitEvery_loop_bounded:
  "\<forall>b \<in> set result. length b \<le> n \<Longrightarrow>
   \<forall>b \<in> set (splitEvery_loop n xs idx result). length b \<le> n"
proof (induction n xs idx result rule: splitEvery_loop.induct)
  case (1 n xs idx result)
  show ?case
  proof (cases "0 < n \<and> idx < length xs")
    case False
    with 1(2) show ?thesis
      by (subst splitEvery_loop.simps) auto
  next
    case True
    have "length (slice idx (idx + n) xs) \<le> n"
      by (simp add: slice_def)
    with 1(2) have "\<forall>b \<in> set (result @ [slice idx (idx + n) xs]). length b \<le> n"
      by auto
    from 1(1)[OF True this] True show ?thesis
      by (subst splitEvery_loop.simps) simp
  qed
qed

lemma splitEvery_loop_nonempty:
  "\<forall>b \<in> set result. b \<noteq> [] \<Longrightarrow> \<forall>b \<in> set (splitEvery_loop n xs idx result). b \<noteq> []"
proof (induction n xs idx result rule: splitEvery_loop.induct)
  case (1 n xs idx result)
  show ?case
  proof (cases "0 < n \<and> idx < length xs")
    case False
    with 1(2) show ?thesis
      by (subst splitEvery_loop.simps) auto
  next
    case True
    then have "slice idx (idx + n) xs \<noteq> []"
      by (simp add: slice_def)
    with 1(2) have "\<forall>b \<in> set (result @ [slice idx (idx + n) xs]). b \<noteq> []"
      by auto
    from 1(1)[OF True this] True show ?thesis
      by (subst splitEvery_loop.simps) simp
  qed
qed

section \<open>Facts about the Verdict Calculator\<close>

lemma foldl_groupBy_step:
  "foldl (groupBy_step f) acc xs k =
     (case acc k of
        None \<Rightarrow> (if filter (\<lambda>x. f x = k) xs = [] then None else Some (filter (\<lambda>x. f x = k) xs))
      | Some ys \<Rightarrow> Some (ys @ filter (\<lambda>x. f x = k) xs))"
proof (induction xs arbitrary: acc)
  case Nil
  then show ?case by (simp split: option.splits)
next
  case (Cons x xs)
  show ?case
    by (simp add: Cons.IH) (simp add: groupBy_step_def split: option.splits)
qed

lemma groupBy_eq:
  "groupBy f xs k = (if filter (\<lambda>x. f x = k) xs = [] then None else Some (filter (\<lambda>x. f x = k) xs))"
  by (simp add: groupBy_def foldl_groupBy_step)

lemma present_nonempty_groupBy:
  "present_nonempty (groupBy f xs) k \<longleftrightarrow> (\<exists>x \<in> set xs. f x = k)"
  by (auto simp: present_nonempty_def groupBy_eq filter_empty_conv)

lemma getConclusion_eq:
  "getConclusion A =
     (if \<exists>a \<in> set A. annotation_level a = AnnotationLevel.failure then Conclusion.failure
      else if \<exists>a \<in> set A. annotation_level a = warning then neutral
      else success)"
  by (cases A) (simp_all add: getConclusion_def present_nonempty_groupBy Let_def)

section \<open>Facts about the reporter, the emitter and the controller\<close>

lemma getInput_optional: "getInput env k False = Inr (trim (input env k))"
  by (simp add: getInput_def)

lemma getInput_required:
  "getInput env k True =
     (if input env k = [] then Inl (InputRequired k) else Inr (trim (input env k)))"
  by (simp add: getInput_def)

lemma written_reports_append [simp]:
  "written_reports (xs @ ys) = written_reports xs @ written_reports ys"
  by (simp add: written_reports_def map_filter_def)

lemma written_reports_Nil [simp]: "written_reports [] = []"
  by (simp add: written_reports_def map_filter_def)

lemma written_reports_Cons [simp]:
  "written_reports (e # es) =
     (case written_report e of None \<Rightarrow> written_reports es | Some w \<Rightarrow> w # written_reports es)"
  by (simp add: written_reports_def map_filter_def split: option.splits)

lemma written_report_write_event [simp]:
  "written_report (write_event env repo1 name title' b n c check_runs)
     = Some (completed, c, report_output title' n b)"
  by (simp add: write_event_def split: option.splits)

lemma written_report_upload_line [simp]: "written_report (upload_line name b n c) = None"
  by (simp add: upload_line_def)

lemma is_request_upload_line [simp]: "\<not> is_request (upload_line name b n c)"
  by (simp add: upload_line_def)

lemma is_request_write_event [simp]:
  "is_request (write_event env repo1 name title' b n c check_runs)"
  by (simp add: write_event_def split: option.splits)

lemma createCheck_no_client:
  "getOctokit env (trim (input env Token)) = Inl e \<Longrightarrow>
   createCheck env name title' b n c s = (Inl e, emit (upload_line name b n c) s)"
  by (simp add: createCheck_def getInput_optional upload_line_def)

lemma createCheck_no_repo:
  "getOctokit env (trim (input env Token)) = Inr octokit \<Longrightarrow>
   context_repo (github_context env) = Inl e \<Longrightarrow>
   createCheck env name title' b n c s = (Inl e, emit (upload_line name b n c) s)"
  by (simp add: createCheck_def getInput_optional upload_line_def)

lemma createCheck_listed:
  assumes "getOctokit env (trim (input env Token)) = Inr octokit"
    and "context_repo (github_context env) = Inr repo1"
    and "listForRef octokit (list_request env repo1) (remote s) = (listed, r1)"
  shows "createCheck env name title' b n c s =
     (case listed of
        Inl e \<Rightarrow>
          (Inl e, s\<lparr>trace := trace s @ [upload_line name b n c,
                                         checks_listForRef (list_request env repo1)],
                    remote := r1\<rparr>)
      | Inr check_runs \<Rightarrow>
          (case (case write_event env repo1 name title' b n c check_runs of
                   checks_create q \<Rightarrow> create octokit q r1
                 | checks_update q \<Rightarrow> update octokit q r1
                 | other \<Rightarrow> (Inr (), r1)) of
             (res, r2) \<Rightarrow>
               (res, s\<lparr>trace := trace s @ [upload_line name b n c,
                                            checks_listForRef (list_request env repo1),
                                            write_event env repo1 name title' b n c check_runs],
                       remote := r2\<rparr>)))"
  using assms
  by (simp add: createCheck_def getInput_optional Let_def request_def emit_def
        list_request_def resolved_commit_def write_event_def report_output_def upload_line_def
      split: prod.splits sum.splits option.splits)

lemma createCheck_trace:
  assumes "getOctokit env (trim (input env Token)) = Inr octokit"
    and "context_repo (github_context env) = Inr repo1"
  shows "trace (snd (createCheck env name title' b n c s)) =
     trace s @ [upload_line name b n c, checks_listForRef (list_request env repo1)]
       @ (case fst (listForRef octokit (list_request env repo1) (remote s)) of
            Inl e \<Rightarrow> []
          | Inr check_runs \<Rightarrow> [write_event env repo1 name title' b n c check_runs])"
proof -
  obtain listed r1 where l: "listForRef octokit (list_request env repo1) (remote s) = (listed, r1)"
    by (cases "listForRef octokit (list_request env repo1) (remote s)")
  show ?thesis
    by (simp add: createCheck_listed [OF assms l] l split: sum.splits prod.splits)
qed

lemma createCheck_failed: "failed (snd (createCheck env name title' b n c s)) = failed s"
  by (simp add: createCheck_def getInput_optional Let_def request_def emit_def
      split: prod.splits sum.splits option.splits)

lemma createCheck_written_cases:
  "written_reports (trace (snd (createCheck env name title' b n c s))) = written_reports (trace s)
   \<or> written_reports (trace (snd (createCheck env name title' b n c s)))
       = written_reports (trace s) @ [(completed, c, report_output title' n b)]"
proof (cases "getOctokit env (trim (input env Token))")
  case (Inl e)
  then show ?thesis
    by (simp add: createCheck_no_client emit_def)
next
  case client: (Inr octokit)
  show ?thesis
  proof (cases "context_repo (github_context env)")
    case (Inl e)
    with client show ?thesis
      by (simp add: createCheck_no_repo emit_def)
  next
    case (Inr repo1)
    show ?thesis
      by (simp add: createCheck_trace [OF client Inr] split: sum.splits)
  qed
qed

lemma createCheck_written_Inr:
  assumes "fst (createCheck env name title' b n c s) = Inr u"
  shows "written_reports (trace (snd (createCheck env name title' b n c s)))
           = written_reports (trace s) @ [(completed, c, report_output title' n b)]"
proof (cases "getOctokit env (trim (input env Token))")
  case (Inl e)
  with assms show ?thesis
    by (simp add: createCheck_no_client)
next
  case client: (Inr octokit)
  show ?thesis
  proof (cases "context_repo (github_context env)")
    case (Inl e)
    with client assms show ?thesis
      by (simp add: createCheck_no_repo)
  next
    case (Inr repo1)
    obtain listed r1 where l: "listForRef octokit (list_request env repo1) (remote s) = (listed, r1)"
      by (cases "listForRef octokit (list_request env repo1) (remote s)")
    from assms have "\<exists>check_runs. listed = Inr check_runs"
      by (cases listed) (simp_all add: createCheck_listed [OF client Inr l])
    then show ?thesis
      by (auto simp add: createCheck_trace [OF client Inr] l)
  qed
qed

lemma createCheck_loop_written:
  "\<exists>k \<le> length bs.
     written_reports (trace (snd (createCheck_loop env name title' bs n c s)))
       = written_reports (trace s) @ map (\<lambda>b. (completed, c, report_output title' n b)) (take k bs)
     \<and> (\<forall>u. fst (createCheck_loop env name title' bs n c s) = Inr u \<longrightarrow> k = length bs)"
proof (induction bs arbitrary: s)
  case Nil
  then show ?case by simp
next
  case (Cons b bs)
  obtain res s1 where step: "createCheck env name title' b n c s = (res, s1)"
    by (cases "createCheck env name title' b n c s")
  show ?case
  proof (cases res)
    case (Inl e)
    from createCheck_written_cases [of env name title' b n c s] step
    have "written_reports (trace s1) = written_reports (trace s)
        \<or> written_reports (trace s1) = written_reports (trace s) @ [(completed, c, report_output title' n b)]"
      by simp
    then show ?thesis
    proof
      assume "written_reports (trace s1) = written_reports (trace s)"
      with step Inl show ?thesis
        by (intro exI[of _ 0]) simp
    next
      assume "written_reports (trace s1)
                = written_reports (trace s) @ [(completed, c, report_output title' n b)]"
      with step Inl show ?thesis
        by (intro exI[of _ 1]) simp
    qed
  next
    case (Inr u)
    from createCheck_written_Inr [of env name title' b n c s u] step Inr
    have w1: "written_reports (trace s1)
                = written_reports (trace s) @ [(completed, c, report_output title' n b)]"
      by simp
    from Cons.IH [of s1] obtain k where k: "k \<le> length bs"
      and w2: "written_reports (trace (snd (createCheck_loop env name title' bs n c s1)))
                 = written_reports (trace s1)
                   @ map (\<lambda>b. (completed, c, report_output title' n b)) (take k bs)"
      and ok2: "\<forall>u. fst (createCheck_loop env name title' bs n c s1) = Inr u \<longrightarrow> k = length bs"
      by blast
    from step Inr k w1 w2 ok2 show ?thesis
      by (intro exI[of _ "Suc k"]) simp
  qed
qed

lemma createCheck_loop_written_Inr:
  assumes "createCheck_loop env name title' bs n c s = (Inr u, s1)"
  shows "written_reports (trace s1)
           = written_reports (trace s) @ map (\<lambda>b. (completed, c, report_output title' n b)) bs"
  using createCheck_loop_written [of bs env name title' n c s] assms by auto

lemma createCheck_loop_failed:
  "failed (snd (createCheck_loop env name title' bs n c s)) = failed s"
proof (induction bs arbitrary: s)
  case Nil
  then show ?case by simp
next
  case (Cons b bs)
  show ?case
    using createCheck_failed[of env name title' b n c s] Cons.IH
    by (cases "createCheck env name title' b n c s") (auto split: sum.splits)
qed

lemma createCheck_loop_abort:
  "createCheck_loop env name title' before n c s = (Inr u, s1) \<Longrightarrow>
   createCheck env name title' b n c s1 = (Inl e, s2) \<Longrightarrow>
   createCheck_loop env name title' (before @ b # later) n c s = (Inl e, s2)"
proof (induction before arbitrary: s)
  case Nil
  then show ?case by simp
next
  case (Cons a before)
  then show ?case
    by (cases "createCheck env name title' a n c s") (auto split: sum.splits)
qed


lemma chain_parsed:
  "(\<And>f. f \<in> set fs \<Longrightarrow> annotationsForPath env f = Inr (parsed f)) \<Longrightarrow>
   chain_annotationsForPath env fs s =
     (Inr (concat (map parsed fs)), s\<lparr>trace := trace s @ map call_annotationsForPath fs\<rparr>)"
proof (induction fs arbitrary: s)
  case Nil
  then show ?case by simp
next
  case (Cons f fs)
  then show ?case by (simp add: emit_def)
qed

lemma inline_loop_trace:
  "inline_loop A s =
     s\<lparr>trace := trace s @ concat (map (\<lambda>a. annotation_log a #
          (if annotation_level a = AnnotationLevel.failure then [annotation_command a] else [])) A)\<rparr>"
  by (induction A arbitrary: s) (simp_all add: emit_def Let_def)

lemma run_body_dispatch:
  assumes "input env Path \<noteq> []"
    and "trim (input env Mode) = ''inline'' \<or> trim (input env Mode) = ''separate''"
    and "findResults env (trim (input env Path)) = Inr searchResult"
    and "filesToUpload searchResult \<noteq> []"
    and "\<And>f. f \<in> set (filesToUpload searchResult) \<Longrightarrow> annotationsForPath env f = Inr (parsed f)"
    and "groupedAnnotations MAX_ANNOTATIONS_PER_REQUEST (concat (map parsed (filesToUpload searchResult)))
           = Inr grouped"
  shows "run_body env \<lparr>trace = [], remote = r, failed = None\<rparr> =
     (let annotations = concat (map parsed (filesToUpload searchResult));
          s = dispatch_state env searchResult annotations grouped r
      in if trim (input env Mode) = ''separate''
         then createCheck_loop env (trim (input env Name)) (trim (input env Title)) grouped
                (length annotations) (getConclusion annotations) s
         else (Inr (), inline_loop annotations s))"
  using assms(1-4,6)
  by (auto simp add: run_body_def getInput_optional getInput_required Let_def emit_def
        chain_parsed[OF assms(5)] dispatch_state_def)

section \<open>Facts used by the concrete runs and the claims\<close>


lemma show_nat_Suc_0: "show_nat (Suc 0) = ''1''"
  by code_simp

lemma show_nat_Suc_Suc_0: "show_nat (Suc (Suc 0)) = ''2''"
  by code_simp

lemma show_nat_4: "show_nat 4 = ''4''"
  by code_simp

lemma show_nat_10: "show_nat 10 = ''10''"
  by code_simp

lemma show_nat_50: "show_nat 50 = ''50''"
  by code_simp

lemma show_nat_51: "show_nat 51 = ''51''"
  by code_simp

lemma show_nat_101: "show_nat 101 = ''101''"
  by code_simp

lemma show_nat_MAX: "show_nat MAX_ANNOTATIONS_PER_REQUEST = ''50''"
  by (simp add: MAX_ANNOTATIONS_PER_REQUEST_def show_nat_50)

lemma trim_words:
  "trim ''reports'' = ''reports''"
  "trim ''separate'' = ''separate''"
  "trim ''inline'' = ''inline''"
  "trim ''bogus'' = ''bogus''"
  "trim ''Lint'' = ''Lint''"
  "trim ''Checkstyle'' = ''Checkstyle''"
  "trim ''secret'' = ''secret''"
  "trim '' inline '' = ''inline''"
  "trim '' bogus '' = ''bogus''"
  "trim [] = []"
  by code_simp+

lemma groupedAnnotations_MAX:
  "groupedAnnotations MAX_ANNOTATIONS_PER_REQUEST A =
     Inr (if length A > 50 then splitEvery_loop 50 A 0 [] else [A])"
  by (simp add: groupedAnnotations_def splitEvery_def MAX_ANNOTATIONS_PER_REQUEST_def)

lemma grouped_51:
  "groupedAnnotations MAX_ANNOTATIONS_PER_REQUEST (replicate 51 x) = Inr [replicate 50 x, [x]]"
proof -
  have "drop 50 (replicate 51 x) = [x]"
    by (simp add: drop_replicate)
  then show ?thesis
    by (simp add: groupedAnnotations_MAX splitEvery_loop.simps slice_def)
qed

lemma grouped_101:
  "groupedAnnotations MAX_ANNOTATIONS_PER_REQUEST (replicate 50 x @ replicate 50 y @ [z])
     = Inr [replicate 50 x, replicate 50 y, [z]]"
  by (simp add: groupedAnnotations_MAX splitEvery_loop.simps slice_def)

lemma grouped_two:
  "groupedAnnotations MAX_ANNOTATIONS_PER_REQUEST [unused_import, magic_number]
     = Inr [[unused_import, magic_number]]"
  by (simp add: groupedAnnotations_MAX)

lemma five_in_twos:
  "groupedAnnotations 2 [1, 2, 3, 4, 5 :: nat] = Inr [[1, 2], [3, 4], [5]]"
  by (simp add: groupedAnnotations_def splitEvery_def splitEvery_loop.simps slice_def)

lemma conclusion_51: "getConclusion (replicate 51 magic_number) = neutral"
  by (simp add: getConclusion_eq magic_number_def)

lemma conclusion_101:
  "getConclusion (replicate 50 magic_number @ replicate 50 unused_import @ [magic_number])
     = Conclusion.failure"
  by (simp add: getConclusion_eq unused_import_def)

lemma find_first_match:
  "\<forall>x \<in> set before. \<not> P x \<Longrightarrow> P y \<Longrightarrow> find P (before @ y # later) = Some y"
  by (induction before) simp_all

lemma createCheck_requests:
  assumes "getOctokit env (trim (input env Token)) = Inr octokit"
    and "context_repo (github_context env) = Inr repo1"
  shows "filter is_request (drop (length (trace s)) (trace (snd (createCheck env name title' b n c s)))) =
     checks_listForRef (list_request env repo1)
       # (case fst (listForRef octokit (list_request env repo1) (remote s)) of
            Inl e \<Rightarrow> []
          | Inr check_runs \<Rightarrow> [write_event env repo1 name title' b n c check_runs])"
  by (simp add: createCheck_trace [OF assms] split: sum.splits)

lemma written_reports_calls [simp]: "written_reports (map call_annotationsForPath fs) = []"
  by (induction fs) simp_all

lemma written_reports_dispatch_state [simp]:
  "written_reports (trace (dispatch_state env searchResult A grouped r)) = []"
  by (simp add: dispatch_state_def)

lemma remote_dispatch_state [simp]: "remote (dispatch_state env searchResult A grouped r) = r"
  by (simp add: dispatch_state_def)

lemma failed_dispatch_state [simp]: "failed (dispatch_state env searchResult A grouped r) = None"
  by (simp add: dispatch_state_def)


lemma run_separate:
  assumes "input env Path \<noteq> []"
    and "trim (input env Mode) = ''separate''"
    and "findResults env (trim (input env Path)) = Inr searchResult"
    and "filesToUpload searchResult \<noteq> []"
    and "\<And>f. f \<in> set (filesToUpload searchResult) \<Longrightarrow> annotationsForPath env f = Inr (parsed f)"
    and "groupedAnnotations MAX_ANNOTATIONS_PER_REQUEST (concat (map parsed (filesToUpload searchResult)))
           = Inr grouped"
  shows "run env r =
     (let annotations = concat (map parsed (filesToUpload searchResult));
          done = createCheck_loop env (trim (input env Name)) (trim (input env Title)) grouped
                   (length annotations) (getConclusion annotations)
                   (dispatch_state env searchResult annotations grouped r)
      in case fst done of Inl e \<Rightarrow> setFailed e (snd done) | Inr u \<Rightarrow> snd done)"
proof -
  have "run_body env \<lparr>trace = [], remote = r, failed = None\<rparr> =
      createCheck_loop env (trim (input env Name)) (trim (input env Title)) grouped
        (length (concat (map parsed (filesToUpload searchResult))))
        (getConclusion (concat (map parsed (filesToUpload searchResult))))
        (dispatch_state env searchResult (concat (map parsed (filesToUpload searchResult))) grouped r)"
    using assms(2) run_body_dispatch [OF assms(1) _ assms(3,4,5,6), of r]
    by (simp add: Let_def)
  then show ?thesis
    by (cases "createCheck_loop env (trim (input env Name)) (trim (input env Title)) grouped
        (length (concat (map parsed (filesToUpload searchResult))))
        (getConclusion (concat (map parsed (filesToUpload searchResult))))
        (dispatch_state env searchResult (concat (map parsed (filesToUpload searchResult))) grouped r)")
      (simp add: run_def Let_def split: sum.splits)
qed

lemma chain_no_request:
  "filter is_request (trace (snd (chain_annotationsForPath env fs s))) = filter is_request (trace s)"
proof (induction fs arbitrary: s)
  case Nil
  then show ?case by simp
next
  case (Cons f fs)
  show ?case
  proof (cases "annotationsForPath env f")
    case (Inl e)
    then show ?thesis by (simp add: emit_def)
  next
    case (Inr found)
    have "filter is_request (trace (snd (chain_annotationsForPath env fs (emit (call_annotationsForPath f) s))))
            = filter is_request (trace s)"
      by (simp add: Cons.IH emit_def)
    with Inr show ?thesis
      by (cases "chain_annotationsForPath env fs (emit (call_annotationsForPath f) s)")
         (auto split: sum.splits)
  qed
qed

lemma inline_loop_no_request:
  "filter is_request (trace (inline_loop A s)) = filter is_request (trace s)"
  by (induction A arbitrary: s)
     (simp_all add: emit_def Let_def annotation_log_def annotation_command_def)

lemma run_body_inline_no_request:
  assumes "trim (input env Mode) = ''inline''"
  shows "filter is_request (trace (snd (run_body env s0))) = filter is_request (trace s0)"
proof (cases "input env Path = [] \<or> (\<exists>e. findResults env (trim (input env Path)) = Inl e)")
  case True
  with assms show ?thesis
    by (auto simp add: run_body_def getInput_optional getInput_required Let_def emit_def)
next
  case False
  then obtain searchResult where path: "input env Path \<noteq> []"
    and found: "findResults env (trim (input env Path)) = Inr searchResult"
    by (cases "findResults env (trim (input env Path))") auto
  let ?s3 = "emit (core_debug (''Root artifact directory is '' @ rootDirectory searchResult))
      (emit (core_info (''With the provided path, there will be ''
          @ show_nat (length (filesToUpload searchResult)) @ '' results uploaded''))
        (emit (call_findResults (trim (input env Path))) s0))"
  obtain res s4 where chain: "chain_annotationsForPath env (filesToUpload searchResult) ?s3 = (res, s4)"
    by (cases "chain_annotationsForPath env (filesToUpload searchResult) ?s3")
  have s4: "filter is_request (trace s4) = filter is_request (trace s0)"
    using chain_no_request [of env "filesToUpload searchResult" ?s3] chain
    by (simp add: emit_def)
  show ?thesis
    using assms path found chain s4
    by (cases res)
       (simp_all add: run_body_def getInput_optional getInput_required Let_def emit_def
          inline_loop_no_request groupedAnnotations_MAX)
qed

lemma run_inline_no_request:
  "trim (input env Mode) = ''inline'' \<Longrightarrow> filter is_request (trace (run env r)) = []"
  using run_body_inline_no_request [of env "\<lparr>trace = [], remote = r, failed = None\<rparr>"]
  by (cases "run_body env \<lparr>trace = [], remote = r, failed = None\<rparr>")
     (auto simp add: run_def setFailed_def emit_def split: sum.splits)

lemma example_client:
  "getOctokit (example_env path' mode files parsed octokit) ''secret'' = Inr octokit"
  by (simp add: getOctokit_def example_env_def)

lemma example_repo:
  "context_repo (github_context (example_env path' mode files parsed octokit))
     = Inr \<lparr>owner = ''wborn'', repo = ''demo''\<rparr>"
  by (simp add: context_repo_def example_env_def)

lemma store_run_51_not_failed:
  "failed (run (example_env ''reports'' ''separate'' [''a.xml''] parse_many store_octokit) []) = None"
proof -
  let ?env = "example_env ''reports'' ''separate'' [''a.xml''] parse_many store_octokit"
  let ?sr = "\<lparr>filesToUpload = [''a.xml''], rootDirectory = ''/work''\<rparr>"
  let ?A = "replicate 51 magic_number"
  let ?done = "createCheck_loop ?env (trim (input ?env Name)) (trim (input ?env Title))
                 [replicate 50 magic_number, [magic_number]] (length ?A) (getConclusion ?A)
                 (dispatch_state ?env ?sr ?A [replicate 50 magic_number, [magic_number]] [])"
  have ok: "fst ?done = Inr ()"
    by (simp add: createCheck_def getInput_optional getOctokit_def context_repo_def Let_def
          request_def emit_def example_env_def example_inputs_def trim_words
          store_octokit_def store_listForRef_def store_create_def store_update_def)
  have "run ?env [] =
     (let annotations = concat (map parse_many (filesToUpload ?sr));
          done = createCheck_loop ?env (trim (input ?env Name)) (trim (input ?env Title))
                   [replicate 50 magic_number, [magic_number]]
                   (length annotations) (getConclusion annotations)
                   (dispatch_state ?env ?sr annotations [replicate 50 magic_number, [magic_number]] [])
      in case fst done of Inl e \<Rightarrow> setFailed e (snd done) | Inr u \<Rightarrow> snd done)"
    by (rule run_separate)
       (simp_all add: example_env_def example_inputs_def parse_many_def grouped_51 trim_words)
  moreover have "concat (map parse_many (filesToUpload ?sr)) = ?A"
    by (simp add: parse_many_def)
  ultimately have "run ?env [] =
      (case fst ?done of Inl e \<Rightarrow> setFailed e (snd ?done) | Inr u \<Rightarrow> snd ?done)"
    by (simp only: Let_def)
  then have "run ?env [] = snd ?done"
    by (simp only: ok sum.case)
  then show ?thesis
    by (simp only: createCheck_loop_failed failed_dispatch_state)
qed

lemma show_nat_Suc_Suc_Suc_0: "show_nat (Suc (Suc (Suc 0))) = ''3''"
  by code_simp

lemma createCheck_write_raises:
  assumes "getOctokit env (trim (input env Token)) = Inr octokit"
    and "context_repo (github_context env) = Inr repo1"
    and "listForRef octokit (list_request env repo1) (remote s) = (Inr check_runs, r1)"
    and "(case write_event env repo1 name title' b n c check_runs of
            checks_create q \<Rightarrow> create octokit q r1
          | checks_update q \<Rightarrow> update octokit q r1
          | other \<Rightarrow> (Inr (), r1)) = (Inl e, r2)"
  shows "createCheck env name title' b n c s =
     (Inl e, s\<lparr>trace := trace s @ [upload_line name b n c,
                                    checks_listForRef (list_request env repo1),
                                    write_event env repo1 name title' b n c check_runs],
               remote := r2\<rparr>)"
  by (simp add: createCheck_listed [OF assms(1-3)] assms(4))

section \<open>The claims\<close>

text \<open>
  Claim C1. For every sequence \<open>A\<close> and every positive limit \<open>L\<close> the Batcher returns
  batches whose concatenation, in order, is \<open>A\<close>; every batch but the last has length
  exactly \<open>L\<close>, no batch is longer than \<open>L\<close>, and no batch is empty unless \<open>A\<close> is; and
  when \<open>A\<close> is not longer than \<open>L\<close> the result is the single batch \<open>A\<close>.
\<close>

theorem batcher_round_trip:
  assumes "0 < L"
  shows "\<exists>bs. groupedAnnotations L A = Inr bs \<and> concat bs = A
            \<and> (\<forall>b \<in> set (butlast bs). length b = L)
            \<and> (\<forall>b \<in> set bs. length b \<le> L)
            \<and> (A \<noteq> [] \<longrightarrow> (\<forall>b \<in> set bs. b \<noteq> []))
            \<and> (length A \<le> L \<longrightarrow> bs = [A])"
proof (cases "length A > L")
  case False
  then show ?thesis by (simp add: groupedAnnotations_def)
next
  case True
  let ?bs = "splitEvery_loop L A 0 []"
  from True assms have "groupedAnnotations L A = Inr ?bs"
    by (simp add: groupedAnnotations_def splitEvery_def)
  moreover from assms have "concat ?bs = A"
    by (simp add: splitEvery_loop_concat)
  moreover have "\<forall>b \<in> set (butlast ?bs). length b = L"
    by (rule splitEvery_loop_lengths) simp
  moreover have "\<forall>b \<in> set ?bs. length b \<le> L"
    by (rule splitEvery_loop_bounded) simp
  moreover have "\<forall>b \<in> set ?bs. b \<noteq> []"
    by (rule splitEvery_loop_nonempty) simp
  ultimately show ?thesis using True by simp
qed

theorem batcher_round_trip_witness:
  "(0::nat) < 2
   \<and> groupedAnnotations 2 [1, 2, 3, 4, 5 :: nat] = Inr [[1, 2], [3, 4], [5]]
   \<and> (\<exists>bs. groupedAnnotations 2 [1, 2, 3, 4, 5 :: nat] = Inr bs \<and> concat bs = [1, 2, 3, 4, 5]
          \<and> (\<forall>b \<in> set (butlast bs). length b = 2)
          \<and> (\<forall>b \<in> set bs. length b \<le> 2)
          \<and> ([1, 2, 3, 4, 5 :: nat] \<noteq> [] \<longrightarrow> (\<forall>b \<in> set bs. b \<noteq> []))
          \<and> (length [1, 2, 3, 4, 5 :: nat] \<le> 2 \<longrightarrow> bs = [[1, 2, 3, 4, 5]]))"
  using batcher_round_trip [of 2 "[1, 2, 3, 4, 5 :: nat]"] five_in_twos by simp

text \<open>
  Claim C2. The Verdict Calculator returns success on the empty list, failure when some
  annotation has level failure, otherwise neutral when some annotation has level warning,
  otherwise success; removing the notice-level annotations does not change the result,
  and neither does any permutation of the list.
\<close>

theorem getConclusion_precedence:
  "getConclusion [] = success
   \<and> getConclusion A =
       (if \<exists>a \<in> set A. annotation_level a = AnnotationLevel.failure then Conclusion.failure
        else if \<exists>a \<in> set A. annotation_level a = warning then neutral
        else success)
   \<and> getConclusion (filter (\<lambda>a. annotation_level a \<noteq> notice) A) = getConclusion A
   \<and> (mset B = mset A \<longrightarrow> getConclusion B = getConclusion A)"
proof -
  have perm: "getConclusion B = getConclusion A" if "mset B = mset A"
  proof -
    from that have "set B = set A" by (rule mset_eq_setD)
    then show ?thesis by (simp add: getConclusion_eq)
  qed
  have drop_notice: "getConclusion (filter (\<lambda>a. annotation_level a \<noteq> notice) A) = getConclusion A"
    by (auto simp: getConclusion_eq)
  have empty: "getConclusion [] = success"
    by (simp add: getConclusion_def)
  show ?thesis using perm drop_notice empty by (simp add: getConclusion_eq)
qed

theorem getConclusion_precedence_witness:
  "mset [unused_import, magic_number] = mset [magic_number, unused_import]
   \<and> getConclusion [magic_number, unused_import] = Conclusion.failure
   \<and> getConclusion [unused_import, magic_number] = Conclusion.failure"
  using getConclusion_precedence [of "[magic_number, unused_import]" "[unused_import, magic_number]"]
  by (simp add: unused_import_def magic_number_def)

text \<open>
  Claim C3, amended. Every call of \<^verbatim>\<open>createCheck\<close> for which the client can be built
  (the token is not empty) and the repository of the context is known first lists the
  check runs of the resolved commit. When the listing holds no run with the configured
  name it sends one create request with that name, the resolved commit as \<open>head_sha\<close>,
  the given conclusion and status completed; when the listing holds such a run it sends
  one update request whose \<open>check_run_id\<close> is the id of that run, with the given
  conclusion and output. Every report written carries status completed.
\<close>

theorem createCheck_upsert:
  assumes "getOctokit env (trim (input env Token)) = Inr octokit"
    and "context_repo (github_context env) = Inr repo1"
  shows
  "let commit = (case pull_request_head_sha (github_context env) of
                   Some h \<Rightarrow> h
                 | None \<Rightarrow> sha (github_context env));
       listing = \<lparr>list_owner = owner repo1, list_repo = repo repo1, ref = commit\<rparr>;
       out = \<lparr>output_title = title',
              output_summary = show_nat n @ '' violation(s) found'',
              output_annotations = b\<rparr>;
       sent = filter is_request
                (drop (length (trace s)) (trace (snd (createCheck env name title' b n c s))))
   in take 1 sent = [checks_listForRef listing]
      \<and> (\<forall>check_runs. fst (listForRef octokit listing (remote s)) = Inr check_runs \<longrightarrow>
            (find (\<lambda>check. check_name check = name) check_runs = None \<longrightarrow>
               sent = [checks_listForRef listing,
                       checks_create
                         \<lparr>create_owner = owner repo1,
                          create_repo = repo repo1,
                          head_sha = commit,
                          create_conclusion = c,
                          create_name = name,
                          create_status = completed,
                          create_output = out\<rparr>])
          \<and> (\<forall>existing. find (\<lambda>check. check_name check = name) check_runs = Some existing \<longrightarrow>
               sent = [checks_listForRef listing,
                       checks_update
                         \<lparr>update_owner = owner repo1,
                          update_repo = repo repo1,
                          update_conclusion = c,
                          check_run_id = check_id existing,
                          update_status = completed,
                          update_output = out\<rparr>]))
      \<and> (\<forall>w \<in> set (written_reports sent). fst w = completed)"
  unfolding Let_def
  by (simp add: createCheck_requests [OF assms, unfolded list_request_def resolved_commit_def]
        write_event_def report_output_def resolved_commit_def split: sum.splits option.splits)

theorem createCheck_upsert_witness:
  "filter is_request (trace (snd (createCheck
      (example_env ''reports'' ''separate'' [''a.xml''] parse_two store_octokit)
      ''Lint'' ''Checkstyle'' [unused_import] 1 Conclusion.failure (start_state lint_twice))))
    = [checks_listForRef \<lparr>list_owner = ''wborn'', list_repo = ''demo'', ref = ''abc''\<rparr>,
       checks_update
         \<lparr>update_owner = ''wborn'', update_repo = ''demo'',
          update_conclusion = Conclusion.failure, check_run_id = 7,
          update_status = completed,
          update_output =
            \<lparr>output_title = ''Checkstyle'',
             output_summary = ''1 violation(s) found'',
             output_annotations = [unused_import]\<rparr>\<rparr>]
   \<and> filter is_request (trace (snd (createCheck
      (example_env ''reports'' ''separate'' [''a.xml''] parse_two store_octokit)
      ''Lint'' ''Checkstyle'' [unused_import] 1 Conclusion.failure (start_state []))))
    = [checks_listForRef \<lparr>list_owner = ''wborn'', list_repo = ''demo'', ref = ''abc''\<rparr>,
       checks_create
         \<lparr>create_owner = ''wborn'', create_repo = ''demo'', head_sha = ''abc'',
          create_conclusion = Conclusion.failure, create_name = ''Lint'',
          create_status = completed,
          create_output =
            \<lparr>output_title = ''Checkstyle'',
             output_summary = ''1 violation(s) found'',
             output_annotations = [unused_import]\<rparr>\<rparr>]"
proof -
  let ?env = "example_env ''reports'' ''separate'' [''a.xml''] parse_two store_octokit"
  have client: "getOctokit ?env (trim (input ?env Token)) = Inr store_octokit"
    by (simp add: getOctokit_def example_env_def example_inputs_def trim_words)
  have known: "context_repo (github_context ?env) = Inr \<lparr>owner = ''wborn'', repo = ''demo''\<rparr>"
    by (rule example_repo)
  show ?thesis
    using createCheck_upsert [OF client known, of "''Checkstyle''" 1 "[unused_import]"
        "start_state lint_twice" "''Lint''" Conclusion.failure]
      createCheck_upsert [OF client known, of "''Checkstyle''" 1 "[unused_import]"
        "start_state []" "''Lint''" Conclusion.failure]
    by (simp add: example_env_def store_octokit_def store_listForRef_def
          start_state_def lint_twice_def Let_def show_nat_Suc_0)
qed

text \<open>
  Claim C3 as stated fails when no token is supplied and when no repository is known:
  \<^verbatim>\<open>getOctokit\<close> and the getter \<^verbatim>\<open>context.repo\<close> throw before any request, so the
  call logs its line, lists nothing and raises.
\<close>

theorem createCheck_upsert_counterexample:
  "createCheck no_token_env ''Lint'' ''Checkstyle'' [unused_import] 1 Conclusion.failure
     (start_state []) =
   (Inl (Error ''Parameter token or opts.auth is required''),
    \<lparr>trace = [core_info
                ''Uploading 1 / 1 annotations to GitHub as Lint with conclusion failure''],
     remote = [], failed = None\<rparr>)
   \<and> createCheck no_repository_env ''Lint'' ''Checkstyle'' [unused_import] 1 Conclusion.failure
     (start_state []) =
   (Inl (Error (''context.repo requires a GITHUB_REPOSITORY environment variable like ''
           @ [CHR 0x27] @ ''owner/repo'' @ [CHR 0x27])),
    \<lparr>trace = [core_info
                ''Uploading 1 / 1 annotations to GitHub as Lint with conclusion failure''],
     remote = [], failed = None\<rparr>)"
  by (simp add: createCheck_def getInput_def getOctokit_def context_repo_def no_token_env_def
        no_repository_env_def example_env_def example_inputs_def emit_def
        start_state_def trim_words show_nat_Suc_0)

text \<open>
  Claim C4. In separate mode the reports written are, in order, one per batch for the
  first \<open>k\<close> batches (all of them when the run does not fail), and each carries the
  summary with the length of the whole annotation sequence and the conclusion computed
  over the whole sequence, whatever the size of its own batch.
\<close>

theorem separate_total_count:
  assumes "input env Path \<noteq> []"
    and "trim (input env Mode) = ''separate''"
    and "findResults env (trim (input env Path)) = Inr searchResult"
    and "filesToUpload searchResult \<noteq> []"
    and "\<And>f. f \<in> set (filesToUpload searchResult) \<Longrightarrow> annotationsForPath env f = Inr (parsed f)"
    and "groupedAnnotations MAX_ANNOTATIONS_PER_REQUEST (concat (map parsed (filesToUpload searchResult)))
           = Inr grouped"
  shows "\<exists>k \<le> length grouped.
           written_reports (trace (run env r)) =
             map (\<lambda>batch. (completed,
                    getConclusion (concat (map parsed (filesToUpload searchResult))),
                    \<lparr>output_title = trim (input env Title),
                     output_summary =
                       show_nat (length (concat (map parsed (filesToUpload searchResult))))
                       @ '' violation(s) found'',
                     output_annotations = batch\<rparr>))
               (take k grouped)
           \<and> (failed (run env r) = None \<longrightarrow> k = length grouped)"
proof -
  let ?A = "concat (map parsed (filesToUpload searchResult))"
  let ?d = "dispatch_state env searchResult ?A grouped r"
  let ?done = "createCheck_loop env (trim (input env Name)) (trim (input env Title)) grouped
                 (length ?A) (getConclusion ?A) ?d"
  from createCheck_loop_written [of grouped env "trim (input env Name)" "trim (input env Title)"
      "length ?A" "getConclusion ?A" ?d]
  obtain k where k: "k \<le> length grouped"
    and w: "written_reports (trace (snd ?done)) =
              map (\<lambda>b. (completed, getConclusion ?A,
                         report_output (trim (input env Title)) (length ?A) b))
                (take k grouped)"
    and ok: "\<forall>u. fst ?done = Inr u \<longrightarrow> k = length grouped"
    by auto
  have run: "run env r = (case fst ?done of Inl e \<Rightarrow> setFailed e (snd ?done) | Inr u \<Rightarrow> snd ?done)"
    using run_separate [OF assms, of r] by (simp add: Let_def)
  have tr: "written_reports (trace (run env r)) = written_reports (trace (snd ?done))"
    unfolding run by (cases "fst ?done") (simp_all add: setFailed_def emit_def)
  have complete: "failed (run env r) = None \<longrightarrow> k = length grouped"
    unfolding run using ok by (cases "fst ?done") (simp_all add: setFailed_def emit_def)
  have "written_reports (trace (run env r)) =
      map (\<lambda>b. (completed, getConclusion ?A,
                 report_output (trim (input env Title)) (length ?A) b))
        (take k grouped)"
    unfolding tr by (rule w)
  then show ?thesis
    using k complete unfolding report_output_def by (intro exI[of _ k]) simp
qed

theorem separate_total_count_witness:
  "written_reports (trace (run
      (example_env ''reports'' ''separate'' [''a.xml''] parse_many store_octokit) [])) =
     [(completed, neutral,
       \<lparr>output_title = ''Checkstyle'', output_summary = ''51 violation(s) found'',
        output_annotations = replicate 50 magic_number\<rparr>),
      (completed, neutral,
       \<lparr>output_title = ''Checkstyle'', output_summary = ''51 violation(s) found'',
        output_annotations = [magic_number]\<rparr>)]"
  using separate_total_count [of "example_env ''reports'' ''separate'' [''a.xml''] parse_many store_octokit"
      "\<lparr>filesToUpload = [''a.xml''], rootDirectory = ''/work''\<rparr>" parse_many
      "[replicate 50 magic_number, [magic_number]]" "[]"]
    store_run_51_not_failed
  by (simp add: example_env_def example_inputs_def parse_many_def grouped_51 show_nat_51
        conclusion_51 trim_words)

text \<open>
  Claim C5. In separate mode, when the batches before some batch were reported and the
  create or update request that \<^verbatim>\<open>createCheck\<close> sends for that batch raises, the run ends
  right after that request, marked failed with the raised error: the reports written
  are those of the earlier batches and of that batch, nothing is sent for the later
  batches and nothing is retried.
\<close>

theorem separate_fail_fast:
  assumes "input env Path \<noteq> []"
    and "trim (input env Mode) = ''separate''"
    and "findResults env (trim (input env Path)) = Inr searchResult"
    and "filesToUpload searchResult \<noteq> []"
    and "\<And>f. f \<in> set (filesToUpload searchResult) \<Longrightarrow> annotationsForPath env f = Inr (parsed f)"
    and "annotations = concat (map parsed (filesToUpload searchResult))"
    and "groupedAnnotations MAX_ANNOTATIONS_PER_REQUEST annotations = Inr (before @ batch # later)"
    and "name = trim (input env Name)"
    and "title' = trim (input env Title)"
    and "createCheck_loop env name title' before (length annotations) (getConclusion annotations)
           (dispatch_state env searchResult annotations (before @ batch # later) r) = (Inr u, s1)"
    and "getOctokit env (trim (input env Token)) = Inr octokit"
    and "context_repo (github_context env) = Inr repo1"
    and "listing = \<lparr>list_owner = owner repo1, list_repo = repo repo1, ref = resolved_commit env\<rparr>"
    and "listForRef octokit listing (remote s1) = (Inr check_runs, r1)"
    and "out = \<lparr>output_title = title',
                output_summary = show_nat (length annotations) @ '' violation(s) found'',
                output_annotations = batch\<rparr>"
    and "(\<exists>q. find (\<lambda>check. check_name check = name) check_runs = None
            \<and> q = \<lparr>create_owner = owner repo1, create_repo = repo repo1,
                    head_sha = resolved_commit env,
                    create_conclusion = getConclusion annotations, create_name = name,
                    create_status = completed, create_output = out\<rparr>
            \<and> write = checks_create q
            \<and> create octokit q r1 = (Inl e, r2))
         \<or> (\<exists>existing q. find (\<lambda>check. check_name check = name) check_runs = Some existing
            \<and> q = \<lparr>update_owner = owner repo1, update_repo = repo repo1,
                    update_conclusion = getConclusion annotations,
                    check_run_id = check_id existing,
                    update_status = completed, update_output = out\<rparr>
            \<and> write = checks_update q
            \<and> update octokit q r1 = (Inl e, r2))"
  shows "run env r =
           \<lparr>trace = trace s1 @
              [core_info (''Uploading '' @ show_nat (length batch) @ '' / ''
                 @ show_nat (length annotations) @ '' annotations to GitHub as '' @ name
                 @ '' with conclusion '' @ conclusion_string (getConclusion annotations)),
               checks_listForRef listing, write, core_setFailed e],
            remote = r2, failed = Some e\<rparr>
         \<and> written_reports (trace (run env r)) =
             map (\<lambda>b. (completed, getConclusion annotations,
                        \<lparr>output_title = title',
                         output_summary = show_nat (length annotations) @ '' violation(s) found'',
                         output_annotations = b\<rparr>))
               (before @ [batch])"
proof -
  let ?n = "length annotations"
  let ?c = "getConclusion annotations"
  let ?d = "dispatch_state env searchResult annotations (before @ batch # later) r"
  let ?w = "write_event env repo1 name title' batch ?n ?c check_runs"
  have listing: "listing = list_request env repo1"
    by (simp add: assms(13) list_request_def)
  have w: "write = ?w"
    and raises: "(case ?w of checks_create q \<Rightarrow> create octokit q r1
                   | checks_update q \<Rightarrow> update octokit q r1
                   | other \<Rightarrow> (Inr (), r1)) = (Inl e, r2)"
    using assms(16) by (auto simp add: write_event_def report_output_def assms(15))
  have step: "createCheck env name title' batch ?n ?c s1 =
      (Inl e, s1\<lparr>trace := trace s1 @ [upload_line name batch ?n ?c,
                                       checks_listForRef (list_request env repo1), ?w],
                 remote := r2\<rparr>)"
    using assms(11,12) assms(14) [unfolded listing] raises by (rule createCheck_write_raises)
  have abort: "createCheck_loop env name title' (before @ batch # later) ?n ?c ?d =
      (Inl e, s1\<lparr>trace := trace s1 @ [upload_line name batch ?n ?c,
                                       checks_listForRef (list_request env repo1), ?w],
                 remote := r2\<rparr>)"
    using assms(10) step by (rule createCheck_loop_abort)
  have unfailed: "failed s1 = None"
    using createCheck_loop_failed [of env name title' before ?n ?c ?d] assms(10) by simp
  have before: "written_reports (trace s1) =
      map (\<lambda>b. (completed, ?c, report_output title' ?n b)) before"
    using createCheck_loop_written_Inr [OF assms(10)] by simp
  have run: "run env r =
      \<lparr>trace = trace s1 @ [upload_line name batch ?n ?c,
                            checks_listForRef (list_request env repo1), ?w, core_setFailed e],
       remote = r2, failed = Some e\<rparr>"
    using run_separate [OF assms(1-5) assms(7) [unfolded assms(6)], of r] abort unfailed
    by (simp add: Let_def assms(6,8,9) [symmetric] setFailed_def emit_def)
  have "written_reports (trace (run env r)) =
      map (\<lambda>b. (completed, ?c, report_output title' ?n b)) (before @ [batch])"
    by (simp add: run before)
  with run show ?thesis
    by (simp add: w listing upload_line_def report_output_def)
qed

theorem separate_fail_fast_witness:
  "run (example_env ''reports'' ''separate'' [''a.xml''] parse_three rejecting_octokit) [] =
     \<lparr>trace =
        [call_findResults ''reports'',
         core_info ''With the provided path, there will be 1 results uploaded'',
         core_debug ''Root artifact directory is /work'',
         call_annotationsForPath ''a.xml'',
         core_debug ''Grouping 101 annotations into chunks of 50'',
         core_debug ''Created 3 buckets'',
         core_info ''Uploading 50 / 101 annotations to GitHub as Lint with conclusion failure'',
         checks_listForRef \<lparr>list_owner = ''wborn'', list_repo = ''demo'', ref = ''abc''\<rparr>,
         checks_create
           \<lparr>create_owner = ''wborn'', create_repo = ''demo'', head_sha = ''abc'',
            create_conclusion = Conclusion.failure, create_name = ''Lint'',
            create_status = completed,
            create_output =
              \<lparr>output_title = ''Checkstyle'', output_summary = ''101 violation(s) found'',
               output_annotations = replicate 50 magic_number\<rparr>\<rparr>,
         core_info ''Uploading 50 / 101 annotations to GitHub as Lint with conclusion failure'',
         checks_listForRef \<lparr>list_owner = ''wborn'', list_repo = ''demo'', ref = ''abc''\<rparr>,
         checks_update
           \<lparr>update_owner = ''wborn'', update_repo = ''demo'',
            update_conclusion = Conclusion.failure, check_run_id = 0,
            update_status = completed,
            update_output =
              \<lparr>output_title = ''Checkstyle'', output_summary = ''101 violation(s) found'',
               output_annotations = replicate 50 unused_import\<rparr>\<rparr>,
         core_setFailed (Error ''Resource not accessible by integration'')],
      remote = [(''abc'', \<lparr>check_id = 0, check_name = ''Lint''\<rparr>)],
      failed = Some (Error ''Resource not accessible by integration'')\<rparr>
   \<and> written_reports (trace
        (run (example_env ''reports'' ''separate'' [''a.xml''] parse_three rejecting_octokit) [])) =
      [(completed, Conclusion.failure,
        \<lparr>output_title = ''Checkstyle'', output_summary = ''101 violation(s) found'',
         output_annotations = replicate 50 magic_number\<rparr>),
       (completed, Conclusion.failure,
        \<lparr>output_title = ''Checkstyle'', output_summary = ''101 violation(s) found'',
         output_annotations = replicate 50 unused_import\<rparr>)]"
proof -
  let ?env = "example_env ''reports'' ''separate'' [''a.xml''] parse_three rejecting_octokit"
  let ?sr = "\<lparr>filesToUpload = [''a.xml''], rootDirectory = ''/work''\<rparr>"
  let ?A = "replicate 50 magic_number @ replicate 50 unused_import @ [magic_number]"
  let ?d = "dispatch_state ?env ?sr ?A
              ([replicate 50 magic_number] @ replicate 50 unused_import # [[magic_number]]) []"
  let ?listing = "\<lparr>list_owner = ''wborn'', list_repo = ''demo'', ref = ''abc''\<rparr>"
  let ?first = "checks_create
           \<lparr>create_owner = ''wborn'', create_repo = ''demo'', head_sha = ''abc'',
            create_conclusion = Conclusion.failure, create_name = ''Lint'',
            create_status = completed,
            create_output =
              \<lparr>output_title = ''Checkstyle'', output_summary = ''101 violation(s) found'',
               output_annotations = replicate 50 magic_number\<rparr>\<rparr>"
  let ?s1 = "\<lparr>trace = trace ?d @
                [core_info ''Uploading 50 / 101 annotations to GitHub as Lint with conclusion failure'',
                 checks_listForRef ?listing, ?first],
              remote = [(''abc'', \<lparr>check_id = 0, check_name = ''Lint''\<rparr>)],
              failed = None :: error option\<rparr>"
  let ?q = "\<lparr>update_owner = ''wborn'', update_repo = ''demo'',
            update_conclusion = Conclusion.failure, check_run_id = 0,
            update_status = completed,
            update_output =
              \<lparr>output_title = ''Checkstyle'', output_summary = ''101 violation(s) found'',
               output_annotations = replicate 50 unused_import\<rparr>\<rparr>"
  have first: "createCheck_loop ?env ''Lint'' ''Checkstyle'' [replicate 50 magic_number]
                 (length ?A) (getConclusion ?A) ?d = (Inr (), ?s1)"
    by (simp add: createCheck_def getInput_optional getOctokit_def context_repo_def Let_def
          request_def emit_def example_env_def example_inputs_def trim_words conclusion_101
          rejecting_octokit_def store_listForRef_def store_create_def dispatch_state_def
          show_nat_50 show_nat_101)
  have "run ?env [] =
           \<lparr>trace = trace ?s1 @
              [core_info (''Uploading '' @ show_nat (length (replicate 50 unused_import)) @ '' / ''
                 @ show_nat (length ?A) @ '' annotations to GitHub as '' @ ''Lint''
                 @ '' with conclusion '' @ conclusion_string (getConclusion ?A)),
               checks_listForRef ?listing, checks_update ?q,
               core_setFailed (Error ''Resource not accessible by integration'')],
            remote = [(''abc'', \<lparr>check_id = 0, check_name = ''Lint''\<rparr>)],
            failed = Some (Error ''Resource not accessible by integration'')\<rparr>
         \<and> written_reports (trace (run ?env [])) =
             map (\<lambda>b. (completed, getConclusion ?A,
                        \<lparr>output_title = ''Checkstyle'',
                         output_summary = show_nat (length ?A) @ '' violation(s) found'',
                         output_annotations = b\<rparr>))
               ([replicate 50 magic_number] @ [replicate 50 unused_import])"
  proof (rule separate_fail_fast [where searchResult = ?sr and parsed = parse_three
        and later = "[[magic_number]]" and u = "()" and octokit = rejecting_octokit
        and ?repo1.0 = "\<lparr>owner = ''wborn'', repo = ''demo''\<rparr>"
        and check_runs = "[\<lparr>check_id = 0, check_name = ''Lint''\<rparr>]"
        and ?r1.0 = "[(''abc'', \<lparr>check_id = 0, check_name = ''Lint''\<rparr>)]"
        and out = "\<lparr>output_title = ''Checkstyle'', output_summary = ''101 violation(s) found'',
               output_annotations = replicate 50 unused_import\<rparr>"])
    show "input ?env Path \<noteq> []"
      by (simp add: example_env_def example_inputs_def)
    show "trim (input ?env Mode) = ''separate''"
      by (simp add: example_env_def example_inputs_def trim_words)
    show "findResults ?env (trim (input ?env Path)) = Inr ?sr"
      by (simp add: example_env_def)
    show "filesToUpload ?sr \<noteq> []"
      by simp
    show "annotationsForPath ?env f = Inr (parse_three f)" for f
      by (simp add: example_env_def)
    show "?A = concat (map parse_three (filesToUpload ?sr))"
      by (simp add: parse_three_def)
    show "groupedAnnotations MAX_ANNOTATIONS_PER_REQUEST ?A
            = Inr ([replicate 50 magic_number] @ replicate 50 unused_import # [[magic_number]])"
      by (simp add: grouped_101)
    show "''Lint'' = trim (input ?env Name)"
      by (simp add: example_env_def example_inputs_def trim_words)
    show "''Checkstyle'' = trim (input ?env Title)"
      by (simp add: example_env_def example_inputs_def trim_words)
    show "createCheck_loop ?env ''Lint'' ''Checkstyle'' [replicate 50 magic_number]
            (length ?A) (getConclusion ?A) ?d = (Inr (), ?s1)"
      by (rule first)
    show "getOctokit ?env (trim (input ?env Token)) = Inr rejecting_octokit"
      by (simp add: getOctokit_def example_env_def example_inputs_def trim_words)
    show "context_repo (github_context ?env) = Inr \<lparr>owner = ''wborn'', repo = ''demo''\<rparr>"
      by (rule example_repo)
    show "?listing = \<lparr>list_owner = owner \<lparr>owner = ''wborn'', repo = ''demo''\<rparr>,
                      list_repo = repo \<lparr>owner = ''wborn'', repo = ''demo''\<rparr>,
                      ref = resolved_commit ?env\<rparr>"
      by (simp add: resolved_commit_def example_env_def)
    show "listForRef rejecting_octokit ?listing (remote ?s1) =
            (Inr [\<lparr>check_id = 0, check_name = ''Lint''\<rparr>],
             [(''abc'', \<lparr>check_id = 0, check_name = ''Lint''\<rparr>)])"
      by (simp add: rejecting_octokit_def store_listForRef_def)
    show "\<lparr>output_title = ''Checkstyle'', output_summary = ''101 violation(s) found'',
               output_annotations = replicate 50 unused_import\<rparr> =
          \<lparr>output_title = ''Checkstyle'',
           output_summary = show_nat (length ?A) @ '' violation(s) found'',
           output_annotations = replicate 50 unused_import\<rparr>"
      by (simp add: show_nat_101)
    show "(\<exists>q. find (\<lambda>check. check_name check = ''Lint'') [\<lparr>check_id = 0, check_name = ''Lint''\<rparr>] = None
            \<and> q = \<lparr>create_owner = owner \<lparr>owner = ''wborn'', repo = ''demo''\<rparr>,
                    create_repo = repo \<lparr>owner = ''wborn'', repo = ''demo''\<rparr>,
                    head_sha = resolved_commit ?env,
                    create_conclusion = getConclusion ?A, create_name = ''Lint'',
                    create_status = completed,
                    create_output = \<lparr>output_title = ''Checkstyle'',
                       output_summary = ''101 violation(s) found'',
                       output_annotations = replicate 50 unused_import\<rparr>\<rparr>
            \<and> checks_update ?q = checks_create q
            \<and> create rejecting_octokit q [(''abc'', \<lparr>check_id = 0, check_name = ''Lint''\<rparr>)]
                = (Inl (Error ''Resource not accessible by integration''),
                   [(''abc'', \<lparr>check_id = 0, check_name = ''Lint''\<rparr>)]))
         \<or> (\<exists>existing q. find (\<lambda>check. check_name check = ''Lint'')
                            [\<lparr>check_id = 0, check_name = ''Lint''\<rparr>] = Some existing
            \<and> q = \<lparr>update_owner = owner \<lparr>owner = ''wborn'', repo = ''demo''\<rparr>,
                    update_repo = repo \<lparr>owner = ''wborn'', repo = ''demo''\<rparr>,
                    update_conclusion = getConclusion ?A,
                    check_run_id = check_id existing,
                    update_status = completed,
                    update_output = \<lparr>output_title = ''Checkstyle'',
                       output_summary = ''101 violation(s) found'',
                       output_annotations = replicate 50 unused_import\<rparr>\<rparr>
            \<and> checks_update ?q = checks_update q
            \<and> update rejecting_octokit q [(''abc'', \<lparr>check_id = 0, check_name = ''Lint''\<rparr>)]
                = (Inl (Error ''Resource not accessible by integration''),
                   [(''abc'', \<lparr>check_id = 0, check_name = ''Lint''\<rparr>)]))"
      by (simp add: conclusion_101 rejecting_octokit_def rejecting_update_def)
  qed
  then show ?thesis
    by (simp add: dispatch_state_def example_env_def example_inputs_def trim_words
          show_nat_Suc_0 show_nat_50 show_nat_101 show_nat_MAX conclusion_101
          show_nat_Suc_Suc_Suc_0)
qed

text \<open>
  Claim C6. In inline mode no request is ever sent to the checks service; and when the
  files were found and parsed, the run writes, after the lines of the controller, for
  each annotation in order exactly one log line with its level, path, start line and
  message, followed by an \<^verbatim>\<open>error\<close> command with its file, line, column and message
  exactly when its level is failure.
\<close>

theorem inline_emitter:
  "(trim (input env Mode) = ''inline'' \<longrightarrow> filter is_request (trace (run env r)) = [])
   \<and> (trim (input env Mode) = ''inline'' \<and> input env Path \<noteq> []
        \<and> findResults env (trim (input env Path)) = Inr searchResult
        \<and> filesToUpload searchResult \<noteq> []
        \<and> (\<forall>f \<in> set (filesToUpload searchResult). annotationsForPath env f = Inr (parsed f))
        \<and> annotations = concat (map parsed (filesToUpload searchResult))
        \<and> groupedAnnotations MAX_ANNOTATIONS_PER_REQUEST annotations = Inr grouped
      \<longrightarrow> run env r =
            \<lparr>trace = trace (dispatch_state env searchResult annotations grouped r)
               @ concat (map (\<lambda>a.
                   core_info (''[Checkstyle '' @ level_string (annotation_level a) @ ''] ''
                     @ path a @ '':'' @ show_nat (start_line a) @ '' '' @ message a)
                   # (if annotation_level a = AnnotationLevel.failure
                      then [issueCommand ''error''
                              \<lparr>prop_file = path a, prop_line = start_line a,
                               prop_col = start_column a\<rparr>
                              (message a)]
                      else [])) annotations),
             remote = r, failed = None\<rparr>)"
proof (intro conjI impI)
  assume "trim (input env Mode) = ''inline''"
  then show "filter is_request (trace (run env r)) = []"
    by (rule run_inline_no_request)
next
  assume a: "trim (input env Mode) = ''inline'' \<and> input env Path \<noteq> []
        \<and> findResults env (trim (input env Path)) = Inr searchResult
        \<and> filesToUpload searchResult \<noteq> []
        \<and> (\<forall>f \<in> set (filesToUpload searchResult). annotationsForPath env f = Inr (parsed f))
        \<and> annotations = concat (map parsed (filesToUpload searchResult))
        \<and> groupedAnnotations MAX_ANNOTATIONS_PER_REQUEST annotations = Inr grouped"
  then have body: "run_body env \<lparr>trace = [], remote = r, failed = None\<rparr> =
      (Inr (), inline_loop annotations (dispatch_state env searchResult annotations grouped r))"
    using run_body_dispatch [of env searchResult parsed grouped r]
    by (auto simp add: Let_def)
  show "run env r =
            \<lparr>trace = trace (dispatch_state env searchResult annotations grouped r)
               @ concat (map (\<lambda>a.
                   core_info (''[Checkstyle '' @ level_string (annotation_level a) @ ''] ''
                     @ path a @ '':'' @ show_nat (start_line a) @ '' '' @ message a)
                   # (if annotation_level a = AnnotationLevel.failure
                      then [issueCommand ''error''
                              \<lparr>prop_file = path a, prop_line = start_line a,
                               prop_col = start_column a\<rparr>
                              (message a)]
                      else [])) annotations),
             remote = r, failed = None\<rparr>"
    by (simp add: run_def body inline_loop_trace annotation_log_def annotation_command_def
          dispatch_state_def cong: if_cong)
qed

theorem inline_emitter_witness:
  "filter is_request (trace (run
      (example_env ''reports'' ''inline'' [''a.xml'', ''b.xml''] parse_two store_octokit) [])) = []
   \<and> run (example_env ''reports'' ''inline'' [''a.xml'', ''b.xml''] parse_two store_octokit) [] =
      \<lparr>trace =
         [call_findResults ''reports'',
          core_info ''With the provided path, there will be 2 results uploaded'',
          core_debug ''Root artifact directory is /work'',
          call_annotationsForPath ''a.xml'',
          call_annotationsForPath ''b.xml'',
          core_debug ''Grouping 2 annotations into chunks of 50'',
          core_debug ''Created 1 buckets'',
          core_info ''[Checkstyle failure] a.java:10 unused import'',
          issueCommand ''error''
            \<lparr>prop_file = ''a.java'', prop_line = 10, prop_col = Some 1\<rparr> ''unused import'',
          core_info ''[Checkstyle warning] b.java:4 magic number''],
       remote = [], failed = None\<rparr>"
  using inline_emitter [of "example_env ''reports'' ''inline'' [''a.xml'', ''b.xml''] parse_two store_octokit"
      "[]" "\<lparr>filesToUpload = [''a.xml'', ''b.xml''], rootDirectory = ''/work''\<rparr>" parse_two
      "[unused_import, magic_number]" "[[unused_import, magic_number]]"]
    grouped_two
  by (simp add: example_env_def example_inputs_def parse_two_def trim_words
        dispatch_state_def unused_import_def magic_number_def
        show_nat_Suc_0 show_nat_Suc_Suc_0 show_nat_4 show_nat_10 show_nat_MAX)

text \<open>
  Claim C7, amended. When the required path input is supplied and the mode, with the
  white space around it removed as \<^verbatim>\<open>core.getInput\<close> returns it, is neither \<^verbatim>\<open>inline\<close>
  nor \<^verbatim>\<open>separate\<close>, the run logs exactly one error line, calls neither the search nor
  the parser nor the checks service, and is not marked failed.
\<close>

theorem invalid_mode_logged:
  assumes "input env Path \<noteq> []"
    and "trim (input env Mode) \<noteq> ''inline''"
    and "trim (input env Mode) \<noteq> ''separate''"
  shows "run env r =
     \<lparr>trace = [core_error (''Invalid mode provided ('' @ trim (input env Mode)
                 @ ''). Use '' @ [CHR 0x22] @ ''inline'' @ [CHR 0x22] @ '' or ''
                 @ [CHR 0x22] @ ''separate'' @ [CHR 0x22] @ ''.'')],
      remote = r, failed = None\<rparr>"
  using assms
  by (simp add: run_def run_body_def getInput_optional getInput_required emit_def)

theorem invalid_mode_logged_witness:
  "run (example_env ''reports'' '' bogus '' [''a.xml''] parse_two store_octokit) [] =
     \<lparr>trace = [core_error (''Invalid mode provided (bogus). Use '' @ [CHR 0x22] @ ''inline''
                 @ [CHR 0x22] @ '' or '' @ [CHR 0x22] @ ''separate'' @ [CHR 0x22] @ ''.'')],
      remote = [], failed = None\<rparr>"
  using invalid_mode_logged [of "example_env ''reports'' '' bogus '' [''a.xml''] parse_two store_octokit" "[]"]
  by (simp add: example_env_def example_inputs_def trim_words)

text \<open>
  Claim C7 as stated fails in two ways. When the required path input is not supplied,
  the check of the required input comes before the check of the mode and raises, so the
  run with mode \<^verbatim>\<open>bogus\<close> is marked failed and the line about the mode is not logged.
  And a mode with white space around \<^verbatim>\<open>inline\<close> is not exactly \<^verbatim>\<open>inline\<close>, yet it is
  accepted: the search is called and no error line is logged.
\<close>

theorem invalid_mode_counterexample:
  "input (example_env [] ''bogus'' [''a.xml''] parse_two store_octokit) Mode \<noteq> ''inline''
   \<and> input (example_env [] ''bogus'' [''a.xml''] parse_two store_octokit) Mode \<noteq> ''separate''
   \<and> run (example_env [] ''bogus'' [''a.xml''] parse_two store_octokit) [] =
        \<lparr>trace = [core_setFailed (InputRequired Path)], remote = [],
         failed = Some (InputRequired Path)\<rparr>
   \<and> input (example_env ''reports'' '' inline '' [] parse_two store_octokit) Mode \<noteq> ''inline''
   \<and> input (example_env ''reports'' '' inline '' [] parse_two store_octokit) Mode \<noteq> ''separate''
   \<and> run (example_env ''reports'' '' inline '' [] parse_two store_octokit) [] =
        \<lparr>trace = [call_findResults ''reports'',
                  core_warning
                    ''No files were found for the provided path: reports. No results will be uploaded.''],
         remote = [], failed = None\<rparr>"
  by (simp add: run_def run_body_def getInput_def setFailed_def emit_def example_env_def
        example_inputs_def trim_words)



text \<open>
  Claim C9. When the search returns no file, the run logs one warning line and ends not
  marked failed; no report is written and no command is issued.
\<close>

theorem no_files_warning:
  assumes "input env Path \<noteq> []"
    and "trim (input env Mode) = ''inline'' \<or> trim (input env Mode) = ''separate''"
    and "findResults env (trim (input env Path)) = Inr searchResult"
    and "filesToUpload searchResult = []"
  shows "run env r =
     \<lparr>trace = [call_findResults (trim (input env Path)),
               core_warning (''No files were found for the provided path: ''
                 @ trim (input env Path) @ ''. No results will be uploaded.'')],
      remote = r, failed = None\<rparr>"
  using assms
  by (auto simp add: run_def run_body_def getInput_optional getInput_required emit_def Let_def)

theorem no_files_warning_witness:
  "run (example_env ''reports'' ''separate'' [] parse_two store_octokit) [] =
     \<lparr>trace = [call_findResults ''reports'',
               core_warning
                 ''No files were found for the provided path: reports. No results will be uploaded.''],
      remote = [], failed = None\<rparr>"
  using no_files_warning [of "example_env ''reports'' ''separate'' [] parse_two store_octokit"
      "\<lparr>filesToUpload = [], rootDirectory = ''/work''\<rparr>" "[]"]
  by (simp add: example_env_def example_inputs_def trim_words)

text \<open>
  Claim C10. When the listing holds a run with the configured name (and possibly more of
  them later in the listing), \<^verbatim>\<open>createCheck\<close> sends one update request for the first
  such run in the listed order and no create request.
\<close>

theorem createCheck_first_match:
  assumes "getOctokit env (trim (input env Token)) = Inr octokit"
    and "context_repo (github_context env) = Inr repo1"
    and "fst (listForRef octokit
                  \<lparr>list_owner = owner repo1, list_repo = repo repo1,
                   ref = resolved_commit env\<rparr> (remote s))
             = Inr (before @ existing # later)"
    and "\<forall>check \<in> set before. check_name check \<noteq> name"
    and "check_name existing = name"
  shows "filter is_request
           (drop (length (trace s)) (trace (snd (createCheck env name title' b n c s))))
         = [checks_listForRef
              \<lparr>list_owner = owner repo1, list_repo = repo repo1,
               ref = resolved_commit env\<rparr>,
            checks_update
              \<lparr>update_owner = owner repo1,
               update_repo = repo repo1,
               update_conclusion = c,
               check_run_id = check_id existing,
               update_status = completed,
               update_output =
                 \<lparr>output_title = title',
                  output_summary = show_nat n @ '' violation(s) found'',
                  output_annotations = b\<rparr>\<rparr>]"
proof -
  have "find (\<lambda>check. check_name check = name) (before @ existing # later) = Some existing"
    using assms(4,5) by (intro find_first_match) simp_all
  with assms(3) show ?thesis
    by (simp add: createCheck_requests [OF assms(1,2), unfolded list_request_def] write_event_def
          report_output_def)
qed

theorem createCheck_first_match_witness:
  "filter is_request (trace (snd (createCheck
      (example_env ''reports'' ''separate'' [''a.xml''] parse_two store_octokit)
      ''Lint'' ''Checkstyle'' [magic_number] 1 neutral (start_state lint_twice))))
    = [checks_listForRef \<lparr>list_owner = ''wborn'', list_repo = ''demo'', ref = ''abc''\<rparr>,
       checks_update
         \<lparr>update_owner = ''wborn'', update_repo = ''demo'',
          update_conclusion = neutral, check_run_id = 7,
          update_status = completed,
          update_output =
            \<lparr>output_title = ''Checkstyle'',
             output_summary = ''1 violation(s) found'',
             output_annotations = [magic_number]\<rparr>\<rparr>]"
  using createCheck_first_match [of "example_env ''reports'' ''separate'' [''a.xml''] parse_two store_octokit"
      store_octokit "\<lparr>owner = ''wborn'', repo = ''demo''\<rparr>"
      "start_state lint_twice" "[\<lparr>check_id = 3, check_name = ''Build''\<rparr>]"
      "\<lparr>check_id = 7, check_name = ''Lint''\<rparr>" "[\<lparr>check_id = 9, check_name = ''Lint''\<rparr>]"
      "''Lint''" "''Checkstyle''" "[magic_number]" 1 neutral]
  by (simp add: example_env_def example_inputs_def store_octokit_def store_listForRef_def
        start_state_def lint_twice_def resolved_commit_def show_nat_Suc_0 trim_words
        getOctokit_def context_repo_def)

end
